theory Spec2Isabelle
  imports Complex_Main "HOL-Library.Log_Nat"
begin

section \<open>The quiz-taking page: data\<close>

text \<open>
  The repository holds two copies of the quiz page:
  \<^item> \<^verbatim>\<open>maths_story/frontend/src/pages/QuizInterface.js\<close>, the current one, and
  \<^item> \<^verbatim>\<open>frontend/src/pages/QuizInterface.js\<close>, an older one without the hint flag and
    without the checks of the loading effect.
  Both are React function components. A component is embedded as a record of its
  \<^verbatim>\<open>useState\<close> cells, and each handler as a function from the cells (and the outside
  world the handler touches) to the updated cells. Handlers close over the cells of the
  latest render, and React renders again after every click or key press, so a handler reads
  the record it is given and returns the next one. The loading effect is taken to run once,
  when the page is mounted (its dependencies, the route parameter and \<^verbatim>\<open>navigate\<close>, do not
  change while the page stays mounted). \<^verbatim>\<open>console.error\<close> is not modelled.

  Strings are lists of 8-bit characters; JavaScript's are UTF-16, so the model covers
  texts in the Latin-1 range. \<^verbatim>\<open>Date.now()\<close> is an integer count of milliseconds and is
  passed in as an argument wherever the source reads it. JavaScript numbers are IEEE doubles:
  a number is the rational it denotes, and subtraction and division round their exact result
  to the nearest double.
\<close>

record question =
  q_id :: string
  q_type :: string
  q_question :: string
  q_options :: "string list option"
  q_hint :: "string option"
  q_story_context :: "string option"

text \<open>The object stored under \<^verbatim>\<open>currentQuiz\<close>; \<open>None\<close> is an absent (or null) field.\<close>

record quiz_payload =
  quiz_subject :: string
  quiz_topic :: string
  quiz_mode :: "string option"
  quiz_questions :: "question list option"

text \<open>
  What \<^verbatim>\<open>JSON.parse\<close> makes of the stored text: it throws a SyntaxError, or returns
  \<^verbatim>\<open>null\<close>, or returns the quiz object. The parser itself is a parameter of the loading
  effect.
\<close>

datatype parsed = JsonSyntaxError | JsonNull | JsonQuiz quiz_payload

datatype error = TypeError | SyntaxError

record answerData =
  question_id :: string
  user_answer :: string
  time_taken :: rat
  is_correct :: bool

text \<open>The body of \<^verbatim>\<open>api.post("/quiz/submit", ...)\<close>.\<close>

record submission =
  quiz_id :: string
  payload_answers :: "answerData list"

text \<open>\<^verbatim>\<open>response.data\<close>: an object with an \<^verbatim>\<open>id\<close>; the other fields are not read here.\<close>

record result =
  result_id :: string
  result_rest :: string

text \<open>The \<^verbatim>\<open>useState\<close> cells of the older page, and of the current one, which adds \<^verbatim>\<open>showHint\<close>.\<close>

record legacy_state =
  quiz :: "quiz_payload option"
  currentIndex :: nat
  answers :: "answerData list"
  userAnswer :: string
  startTime :: int
  questionStartTime :: int
  submitting :: bool

record state = legacy_state +
  showHint :: bool

text \<open>
  What the page touches outside its own cells: \<^verbatim>\<open>sessionStorage\<close>, the notices raised
  with \<^verbatim>\<open>toast.error\<close>, the calls of \<^verbatim>\<open>navigate\<close>, and the bodies posted to
  \<^verbatim>\<open>/quiz/submit\<close>, each in the order of the calls.
\<close>

record world =
  sessionStorage :: "string \<rightharpoonup> string"
  toasts :: "string list"
  navigations :: "string list"
  posts :: "submission list"

section \<open>Strings\<close>

text \<open>
  \<^verbatim>\<open>String.prototype.trim\<close> strips white space and line terminators from both ends; in
  the Latin-1 range these are TAB, LF, VT, FF, CR, SPACE and NBSP.
\<close>

definition is_space :: "char \<Rightarrow> bool" where
  "is_space c \<longleftrightarrow>
     c = CHR 0x09 \<or> c = CHR 0x0A \<or> c = CHR 0x0B \<or> c = CHR 0x0C \<or> c = CHR 0x0D \<or>
     c = CHR 0x20 \<or> c = CHR 0xA0"

definition trim :: "string \<Rightarrow> string" where
  "trim s = rev (dropWhile is_space (rev (dropWhile is_space s)))"

text \<open>\<^verbatim>\<open>s.charAt(0)\<close>: the first character as a string, the empty string when there is none.\<close>

definition charAt0 :: "string \<Rightarrow> string" where
  "charAt0 s = take 1 s"

section \<open>JavaScript numbers\<close>

text \<open>
  Rounding to the nearest double, ties to the even significand: a positive \<open>x\<close> with
  \<open>2 ^ k \<le> x < 2 ^ (k + 1)\<close> is rounded to a multiple of \<open>2 ^ (k - 52)\<close>. The exponent \<open>k\<close> is
  found from the bit lengths of numerator and denominator. Overflow and subnormal numbers are
  left out: the numbers rounded here are differences of clock readings and their quotients by
  1000, which are zero or lie between \<open>1 / 1000\<close> and \<open>2 ^ 55\<close> in magnitude (a reading of
  \<^verbatim>\<open>Date.now()\<close> is an integer of magnitude at most 8.64e15, itself a double).
\<close>

definition round_half_even :: "rat \<Rightarrow> int" where
  "round_half_even y =
     (let f = \<lfloor>y\<rfloor>; d = y - of_int f
      in if d < 1 / 2 then f else if 1 / 2 < d then f + 1 else if even f then f else f + 1)"

definition floor_log2 :: "rat \<Rightarrow> int" where
  "floor_log2 x =
     (let d = bitlen (fst (quotient_of x)) - bitlen (snd (quotient_of x))
      in if 2 powi d \<le> x then d else d - 1)"

definition to_double :: "rat \<Rightarrow> rat" where
  "to_double x =
     (if x = 0 then 0
      else let e = floor_log2 \<bar>x\<bar> - 52
           in sgn x * of_int (round_half_even (\<bar>x\<bar> / 2 powi e)) * 2 powi e)"

text \<open>\<^verbatim>\<open>x - y\<close> and \<^verbatim>\<open>x / y\<close> on numbers (the divisor here is always 1000).\<close>

definition js_subtract :: "rat \<Rightarrow> rat \<Rightarrow> rat" where
  "js_subtract x y = to_double (x - y)"

definition js_divide :: "rat \<Rightarrow> rat \<Rightarrow> rat" where
  "js_divide x y = to_double (x / y)"

section \<open>The current page\<close>

text \<open>The cells at mount; \<^verbatim>\<open>startTime\<close> and \<^verbatim>\<open>questionStartTime\<close> each read the clock.\<close>

definition initial_state :: "int \<Rightarrow> int \<Rightarrow> state" where
  "initial_state now1 now2 =
     \<lparr>quiz = None, currentIndex = 0, answers = [], userAnswer = [], startTime = now1,
      questionStartTime = now2, submitting = False, showHint = False\<rparr>"

definition toast_error :: "string \<Rightarrow> world \<Rightarrow> world" where
  "toast_error msg w = w\<lparr>toasts := toasts w @ [msg]\<rparr>"

definition navigate :: "string \<Rightarrow> world \<Rightarrow> world" where
  "navigate path w = w\<lparr>navigations := navigations w @ [path]\<rparr>"

text \<open>
  The loading effect (lines 24-45). \<^verbatim>\<open>if (storedQuiz)\<close> is false for a missing key and for
  the empty text. Inside the \<^verbatim>\<open>try\<close>, a SyntaxError of the parser and the TypeError of
  reading \<^verbatim>\<open>.questions\<close> of \<^verbatim>\<open>null\<close> both reach the \<^verbatim>\<open>catch\<close>.
\<close>

definition loadQuiz :: "(string \<Rightarrow> parsed) \<Rightarrow> int \<Rightarrow> state \<times> world \<Rightarrow> state \<times> world" where
  "loadQuiz JSON_parse now = (\<lambda>(s, w).
     (case sessionStorage w ''currentQuiz'' of
        None \<Rightarrow> (s, navigate ''/quiz/select'' (toast_error ''Quiz not found'' w))
      | Some storedQuiz \<Rightarrow>
          if storedQuiz = [] then (s, navigate ''/quiz/select'' (toast_error ''Quiz not found'' w))
          else (case JSON_parse storedQuiz of
                  JsonSyntaxError \<Rightarrow>
                    (s, navigate ''/quiz/select'' (toast_error ''Failed to load quiz'' w))
                | JsonNull \<Rightarrow>
                    (s, navigate ''/quiz/select'' (toast_error ''Failed to load quiz'' w))
                | JsonQuiz parsedQuiz \<Rightarrow>
                    (case quiz_questions parsedQuiz of
                       None \<Rightarrow>
                         (s, navigate ''/quiz/select'' (toast_error ''Quiz has no questions'' w))
                     | Some qs \<Rightarrow>
                         if length qs = 0
                         then (s, navigate ''/quiz/select'' (toast_error ''Quiz has no questions'' w))
                         else (s\<lparr>quiz := Some parsedQuiz, questionStartTime := now\<rparr>, w)))))"

text \<open>
  \<^verbatim>\<open>submitQuiz\<close> up to its \<^verbatim>\<open>await\<close> (lines 81-87): the flag is set and the body is
  posted. \<^verbatim>\<open>quizId\<close> is the route parameter of the page.
\<close>

definition submitQuiz :: "string \<Rightarrow> answerData list \<Rightarrow> state \<times> world \<Rightarrow> state \<times> world" where
  "submitQuiz quizId allAnswers = (\<lambda>(s, w).
     (s\<lparr>submitting := True\<rparr>,
      w\<lparr>posts := posts w @ [\<lparr>quiz_id = quizId, payload_answers = allAnswers\<rparr>]\<rparr>))"

text \<open>\<^verbatim>\<open>submitQuiz\<close> after the \<^verbatim>\<open>await\<close>, when the call returned (lines 89-93).\<close>

definition submitQuiz_resolved ::
  "(result \<Rightarrow> string) \<Rightarrow> result \<Rightarrow> state \<times> world \<Rightarrow> state \<times> world" where
  "submitQuiz_resolved JSON_stringify res = (\<lambda>(s, w).
     (s, navigate (''/results/'' @ result_id res)
           (w\<lparr>sessionStorage :=
                (sessionStorage w)(''quizResult'' \<mapsto> JSON_stringify res, ''currentQuiz'' := None)\<rparr>)))"

text \<open>\<^verbatim>\<open>submitQuiz\<close> after the \<^verbatim>\<open>await\<close>, when the call failed (lines 94-97).\<close>

definition submitQuiz_rejected :: "state \<times> world \<Rightarrow> state \<times> world" where
  "submitQuiz_rejected = (\<lambda>(s, w).
     (s\<lparr>submitting := False\<rparr>, toast_error ''Failed to submit quiz'' w))"

text \<open>
  \<^verbatim>\<open>handleAnswerSubmit\<close> (lines 53-79). \<open>now1\<close> is the clock read for \<^verbatim>\<open>timeTaken\<close>
  (line 59: \<^verbatim>\<open>(Date.now() - questionStartTime) / 1000\<close>),
  \<open>now2\<close> the one read when the next question starts. Reading \<^verbatim>\<open>quiz.questions\<close> of a
  null quiz, indexing an absent list, and reading \<^verbatim>\<open>.id\<close> of the \<^verbatim>\<open>undefined\<close> that an
  index out of range gives all throw a TypeError, before any cell is set.
\<close>

definition handleAnswerSubmit ::
  "string \<Rightarrow> int \<Rightarrow> int \<Rightarrow> state \<times> world \<Rightarrow> error + state \<times> world" where
  "handleAnswerSubmit quizId now1 now2 = (\<lambda>(s, w).
     if trim (userAnswer s) = [] then Inr (s, toast_error ''Please provide an answer'' w)
     else
       (case quiz s of
          None \<Rightarrow> Inl TypeError
        | Some q \<Rightarrow>
            (case quiz_questions q of
               None \<Rightarrow> Inl TypeError
             | Some qs \<Rightarrow>
                 if \<not> currentIndex s < length qs then Inl TypeError
                 else
                   let timeTaken =
                         js_divide (js_subtract (of_int now1) (of_int (questionStartTime s))) 1000;
                       currentQuestion = qs ! currentIndex s;
                       answerData = \<lparr>question_id = q_id currentQuestion,
                                     user_answer = userAnswer s,
                                     time_taken = timeTaken,
                                     is_correct = False\<rparr>;
                       s1 = s\<lparr>answers := answers s @ [answerData], userAnswer := [],
                              showHint := False\<rparr>
                   in if int (currentIndex s) < int (length qs) - 1
                      then Inr (s1\<lparr>currentIndex := currentIndex s + 1,
                                   questionStartTime := now2\<rparr>, w)
                      else Inr (submitQuiz quizId (answers s @ [answerData]) (s1, w)))))"

text \<open>The \<^verbatim>\<open>onChange\<close> of the text input and the \<^verbatim>\<open>onClick\<close> of an option (line 230).\<close>

definition setUserAnswer :: "string \<Rightarrow> state \<times> world \<Rightarrow> state \<times> world" where
  "setUserAnswer v = (\<lambda>(s, w). (s\<lparr>userAnswer := v\<rparr>, w))"

definition selectOption :: "string \<Rightarrow> state \<times> world \<Rightarrow> state \<times> world" where
  "selectOption option = setUserAnswer (charAt0 option)"

definition setShowHint :: "bool \<Rightarrow> state \<times> world \<Rightarrow> state \<times> world" where
  "setShowHint b = (\<lambda>(s, w). (s\<lparr>showHint := b\<rparr>, w))"

section \<open>What the page shows, and the events it offers\<close>

text \<open>
  \<^verbatim>\<open>quiz.questions[currentIndex]\<close> as the render code reads it (line 126): \<open>None\<close> where
  JavaScript gives \<^verbatim>\<open>undefined\<close> or throws. The function works on the cells both pages have.
\<close>

definition current_question :: "'a legacy_state_scheme \<Rightarrow> question option" where
  "current_question s =
     (case quiz s of
        None \<Rightarrow> None
      | Some q \<Rightarrow>
          (case quiz_questions q of
             None \<Rightarrow> None
           | Some qs \<Rightarrow> if currentIndex s < length qs then Some (qs ! currentIndex s) else None))"

text \<open>
  The four statuses of a session, read off the render code (lines 100-126): once
  \<^verbatim>\<open>navigate\<close> has been called the page is left; \<^verbatim>\<open>!quiz || submitting\<close> shows the
  spinner, with the text "Submitting your answers..." when \<^verbatim>\<open>submitting\<close> and "Loading
  quiz..." otherwise; the question form is shown when there is a current question. A quiz
  without a current question shows no form (the current page shows "No questions
  available", the older one fails reading \<^verbatim>\<open>currentQuestion.type\<close>).
\<close>

datatype status = Loading | Answering | Submitting | Terminated

definition status_of :: "'a legacy_state_scheme \<times> world \<Rightarrow> status" where
  "status_of = (\<lambda>(s, w).
     if navigations w \<noteq> [] then Terminated
     else if submitting s then Submitting
     else if quiz s = None then Loading
     else if current_question s = None then Terminated
     else Answering)"

text \<open>
  The option buttons are shown for a question of type \<^verbatim>\<open>mcq\<close> with an \<^verbatim>\<open>options\<close> list
  (line 223), the text input otherwise.
\<close>

definition shown_options :: "question \<Rightarrow> string list option" where
  "shown_options cq = (if q_type cq = ''mcq'' then q_options cq else None)"

text \<open>
  The events of a session: typing into the input, clicking the option button of an index,
  clicking "Show Hint", submitting an answer (the button, or Enter in the input) with the
  two clock readings, and the two outcomes of the posted request.
\<close>

datatype event =
  Type string | Click nat | Hint | Submit int int | Resolve result | Reject

text \<open>
  One event on the current page; \<open>None\<close> when the page does not offer the event in this
  state, or when the handler throws. An event reaches the handlers of the latest render; a
  click on a card that is still leaving the screen (the exit animation keeps the answered
  card, with the handlers of its own render, for 0.3 s) is not among these events. The submit button is disabled while \<^verbatim>\<open>userAnswer\<close> is
  empty (line 275); Enter in the text input calls the handler whatever the input holds. The
  hint button is shown in practice mode for a question with a hint that is not yet revealed
  (lines 199-216).
\<close>

definition fire ::
  "string \<Rightarrow> (result \<Rightarrow> string) \<Rightarrow> event \<Rightarrow> state \<times> world \<Rightarrow> (state \<times> world) option" where
  "fire quizId JSON_stringify ev c =
     (case status_of c of
        Answering \<Rightarrow>
          (case current_question (fst c) of
             None \<Rightarrow> None
           | Some cq \<Rightarrow>
               (case ev of
                  Type v \<Rightarrow> (if shown_options cq = None then Some (setUserAnswer v c) else None)
                | Click idx \<Rightarrow>
                    (case shown_options cq of
                       None \<Rightarrow> None
                     | Some opts \<Rightarrow>
                         if idx < length opts then Some (selectOption (opts ! idx) c) else None)
                | Hint \<Rightarrow>
                    (if (case quiz (fst c) of None \<Rightarrow> False | Some q \<Rightarrow> quiz_mode q = Some ''practice'')
                        \<and> q_hint cq \<noteq> None \<and> q_hint cq \<noteq> Some [] \<and> \<not> showHint (fst c)
                     then Some (setShowHint True c) else None)
                | Submit now1 now2 \<Rightarrow>
                    (if shown_options cq = None \<or> userAnswer (fst c) \<noteq> []
                     then (case handleAnswerSubmit quizId now1 now2 c of
                             Inl e \<Rightarrow> None | Inr c' \<Rightarrow> Some c')
                     else None)
                | Resolve res \<Rightarrow> None
                | Reject \<Rightarrow> None))
      | Submitting \<Rightarrow>
          (case ev of
             Resolve res \<Rightarrow> Some (submitQuiz_resolved JSON_stringify res c)
           | Reject \<Rightarrow> Some (submitQuiz_rejected c)
           | _ \<Rightarrow> None)
      | _ \<Rightarrow> None)"

fun run ::
  "string \<Rightarrow> (result \<Rightarrow> string) \<Rightarrow> event list \<Rightarrow> state \<times> world \<Rightarrow> (state \<times> world) option" where
  "run quizId JSON_stringify [] c = Some c"
| "run quizId JSON_stringify (ev # evs) c =
     (case fire quizId JSON_stringify ev c of
        None \<Rightarrow> None
      | Some c' \<Rightarrow> run quizId JSON_stringify evs c')"

text \<open>
  The page as it is mounted on a world whose notices, navigations and posted requests are
  still empty: the cells at mount, then the loading effect.
\<close>

definition fresh_world :: "(string \<rightharpoonup> string) \<Rightarrow> world" where
  "fresh_world store = \<lparr>sessionStorage = store, toasts = [], navigations = [], posts = []\<rparr>"

definition mount ::
  "(string \<Rightarrow> parsed) \<Rightarrow> int \<Rightarrow> int \<Rightarrow> int \<Rightarrow> (string \<rightharpoonup> string) \<Rightarrow> state \<times> world" where
  "mount JSON_parse now1 now2 now3 store =
     loadQuiz JSON_parse now3 (initial_state now1 now2, fresh_world store)"

text \<open>
  The specification's \<^verbatim>\<open>recordAnswer(rawInput)\<close>: the input reaches \<^verbatim>\<open>userAnswer\<close> (by
  typing or by an option button, both are \<^verbatim>\<open>setUserAnswer\<close>), then \<^verbatim>\<open>handleAnswerSubmit\<close>
  runs. \<open>recordAnswers\<close> makes the calls of a list in order and stops at a TypeError.
\<close>

definition recordAnswer ::
  "string \<Rightarrow> string \<times> int \<times> int \<Rightarrow> state \<times> world \<Rightarrow> error + state \<times> world" where
  "recordAnswer quizId = (\<lambda>(rawInput, now1, now2) c.
     handleAnswerSubmit quizId now1 now2 (setUserAnswer rawInput c))"

fun recordAnswers ::
  "string \<Rightarrow> (string \<times> int \<times> int) list \<Rightarrow> state \<times> world \<Rightarrow> error + state \<times> world" where
  "recordAnswers quizId [] c = Inr c"
| "recordAnswers quizId (i # inputs) c =
     (case recordAnswer quizId i c of
        Inl e \<Rightarrow> Inl e
      | Inr c' \<Rightarrow> recordAnswers quizId inputs c')"

section \<open>The older page\<close>

text \<open>
  \<^verbatim>\<open>frontend/src/pages/QuizInterface.js\<close>, handler by handler. Its loading effect
  (lines 22-31) has no \<^verbatim>\<open>try\<close> and no check of the questions: a SyntaxError of the parser
  leaves the effect, and whatever was parsed is stored in \<^verbatim>\<open>quiz\<close>.
\<close>

definition legacy_initial_state :: "int \<Rightarrow> int \<Rightarrow> legacy_state" where
  "legacy_initial_state now1 now2 =
     \<lparr>quiz = None, currentIndex = 0, answers = [], userAnswer = [], startTime = now1,
      questionStartTime = now2, submitting = False\<rparr>"

definition legacy_loadQuiz ::
  "(string \<Rightarrow> parsed) \<Rightarrow> int \<Rightarrow> legacy_state \<times> world \<Rightarrow> error + legacy_state \<times> world" where
  "legacy_loadQuiz JSON_parse now = (\<lambda>(s, w).
     (case sessionStorage w ''currentQuiz'' of
        None \<Rightarrow> Inr (s, navigate ''/quiz/select'' (toast_error ''Quiz not found'' w))
      | Some storedQuiz \<Rightarrow>
          if storedQuiz = []
          then Inr (s, navigate ''/quiz/select'' (toast_error ''Quiz not found'' w))
          else (case JSON_parse storedQuiz of
                  JsonSyntaxError \<Rightarrow> Inl SyntaxError
                | JsonNull \<Rightarrow> Inr (s\<lparr>quiz := None, questionStartTime := now\<rparr>, w)
                | JsonQuiz parsedQuiz \<Rightarrow>
                    Inr (s\<lparr>quiz := Some parsedQuiz, questionStartTime := now\<rparr>, w))))"

definition legacy_submitQuiz ::
  "string \<Rightarrow> answerData list \<Rightarrow> legacy_state \<times> world \<Rightarrow> legacy_state \<times> world" where
  "legacy_submitQuiz quizId allAnswers = (\<lambda>(s, w).
     (s\<lparr>submitting := True\<rparr>,
      w\<lparr>posts := posts w @ [\<lparr>quiz_id = quizId, payload_answers = allAnswers\<rparr>]\<rparr>))"

definition legacy_submitQuiz_resolved ::
  "(result \<Rightarrow> string) \<Rightarrow> result \<Rightarrow> legacy_state \<times> world \<Rightarrow> legacy_state \<times> world" where
  "legacy_submitQuiz_resolved JSON_stringify res = (\<lambda>(s, w).
     (s, navigate (''/results/'' @ result_id res)
           (w\<lparr>sessionStorage :=
                (sessionStorage w)(''quizResult'' \<mapsto> JSON_stringify res, ''currentQuiz'' := None)\<rparr>)))"

definition legacy_submitQuiz_rejected :: "legacy_state \<times> world \<Rightarrow> legacy_state \<times> world" where
  "legacy_submitQuiz_rejected = (\<lambda>(s, w).
     (s\<lparr>submitting := False\<rparr>, toast_error ''Failed to submit quiz'' w))"

definition legacy_handleAnswerSubmit ::
  "string \<Rightarrow> int \<Rightarrow> int \<Rightarrow> legacy_state \<times> world \<Rightarrow> error + legacy_state \<times> world" where
  "legacy_handleAnswerSubmit quizId now1 now2 = (\<lambda>(s, w).
     if trim (userAnswer s) = [] then Inr (s, toast_error ''Please provide an answer'' w)
     else
       (case quiz s of
          None \<Rightarrow> Inl TypeError
        | Some q \<Rightarrow>
            (case quiz_questions q of
               None \<Rightarrow> Inl TypeError
             | Some qs \<Rightarrow>
                 if \<not> currentIndex s < length qs then Inl TypeError
                 else
                   let timeTaken =
                         js_divide (js_subtract (of_int now1) (of_int (questionStartTime s))) 1000;
                       currentQuestion = qs ! currentIndex s;
                       answerData = \<lparr>question_id = q_id currentQuestion,
                                     user_answer = userAnswer s,
                                     time_taken = timeTaken,
                                     is_correct = False\<rparr>;
                       s1 = s\<lparr>answers := answers s @ [answerData], userAnswer := []\<rparr>
                   in if int (currentIndex s) < int (length qs) - 1
                      then Inr (s1\<lparr>currentIndex := currentIndex s + 1,
                                   questionStartTime := now2\<rparr>, w)
                      else Inr (legacy_submitQuiz quizId (answers s @ [answerData]) (s1, w)))))"

definition legacy_setUserAnswer :: "string \<Rightarrow> legacy_state \<times> world \<Rightarrow> legacy_state \<times> world" where
  "legacy_setUserAnswer v = (\<lambda>(s, w). (s\<lparr>userAnswer := v\<rparr>, w))"

definition legacy_selectOption :: "string \<Rightarrow> legacy_state \<times> world \<Rightarrow> legacy_state \<times> world" where
  "legacy_selectOption option = legacy_setUserAnswer (charAt0 option)"

text \<open>One event on the older page, which has no hint button.\<close>

definition legacy_fire ::
  "string \<Rightarrow> (result \<Rightarrow> string) \<Rightarrow> event \<Rightarrow> legacy_state \<times> world
     \<Rightarrow> (legacy_state \<times> world) option" where
  "legacy_fire quizId JSON_stringify ev c =
     (case status_of c of
        Answering \<Rightarrow>
          (case current_question (fst c) of
             None \<Rightarrow> None
           | Some cq \<Rightarrow>
               (case ev of
                  Type v \<Rightarrow>
                    (if shown_options cq = None then Some (legacy_setUserAnswer v c) else None)
                | Click idx \<Rightarrow>
                    (case shown_options cq of
                       None \<Rightarrow> None
                     | Some opts \<Rightarrow>
                         if idx < length opts then Some (legacy_selectOption (opts ! idx) c)
                         else None)
                | Hint \<Rightarrow> None
                | Submit now1 now2 \<Rightarrow>
                    (if shown_options cq = None \<or> userAnswer (fst c) \<noteq> []
                     then (case legacy_handleAnswerSubmit quizId now1 now2 c of
                             Inl e \<Rightarrow> None | Inr c' \<Rightarrow> Some c')
                     else None)
                | Resolve res \<Rightarrow> None
                | Reject \<Rightarrow> None))
      | Submitting \<Rightarrow>
          (case ev of
             Resolve res \<Rightarrow> Some (legacy_submitQuiz_resolved JSON_stringify res c)
           | Reject \<Rightarrow> Some (legacy_submitQuiz_rejected c)
           | _ \<Rightarrow> None)
      | _ \<Rightarrow> None)"

fun legacy_run ::
  "string \<Rightarrow> (result \<Rightarrow> string) \<Rightarrow> event list \<Rightarrow> legacy_state \<times> world
     \<Rightarrow> (legacy_state \<times> world) option" where
  "legacy_run quizId JSON_stringify [] c = Some c"
| "legacy_run quizId JSON_stringify (ev # evs) c =
     (case legacy_fire quizId JSON_stringify ev c of
        None \<Rightarrow> None
      | Some c' \<Rightarrow> legacy_run quizId JSON_stringify evs c')"

definition legacy_mount ::
  "(string \<Rightarrow> parsed) \<Rightarrow> int \<Rightarrow> int \<Rightarrow> int \<Rightarrow> (string \<rightharpoonup> string)
     \<Rightarrow> error + legacy_state \<times> world" where
  "legacy_mount JSON_parse now1 now2 now3 store =
     legacy_loadQuiz JSON_parse now3 (legacy_initial_state now1 now2, fresh_world store)"

text \<open>
  What the older page renders once \<^verbatim>\<open>quiz\<close> is set (lines 85-99, 151): the spinner, or the
  form of the current question; reading \<^verbatim>\<open>.type\<close> of an \<^verbatim>\<open>undefined\<close> current question
  throws.
\<close>

datatype view = Spinner string | QuestionForm question

definition legacy_render :: "legacy_state \<Rightarrow> error + view" where
  "legacy_render s =
     (if quiz s = None \<or> submitting s
      then Inr (Spinner (if submitting s then ''Submitting your answers...'' else ''Loading quiz...''))
      else (case current_question s of
              None \<Rightarrow> Inl TypeError
            | Some cq \<Rightarrow> Inr (QuestionForm cq)))"

text \<open>The cells the two pages share.\<close>

definition legacy_of :: "state \<Rightarrow> legacy_state" where
  "legacy_of s =
     \<lparr>quiz = quiz s, currentIndex = currentIndex s, answers = answers s,
      userAnswer = userAnswer s, startTime = startTime s,
      questionStartTime = questionStartTime s, submitting = submitting s\<rparr>"

definition legacy_config :: "state \<times> world \<Rightarrow> legacy_state \<times> world" where
  "legacy_config = (\<lambda>(s, w). (legacy_of s, w))"

section \<open>Notions used in the statements\<close>

text \<open>The record \<^verbatim>\<open>answerData\<close> that \<^verbatim>\<open>handleAnswerSubmit\<close> builds (lines 62-67).\<close>

definition new_answer :: "int \<Rightarrow> 'a legacy_state_scheme \<Rightarrow> question list \<Rightarrow> answerData" where
  "new_answer now1 s qs =
     \<lparr>question_id = q_id (qs ! currentIndex s), user_answer = userAnswer s,
      time_taken = js_divide (js_subtract (of_int now1) (of_int (questionStartTime s))) 1000,
      is_correct = False\<rparr>"

text \<open>
  The invariant of a session on the current page. Without a quiz nothing is submitted. With
  a quiz loaded, the index points at a question. Until a submission is posted the answers are as many as the index; from the
  first post on, the index stays at the last question and every question has an answer.
\<close>

definition session_inv :: "state \<times> world \<Rightarrow> bool" where
  "session_inv = (\<lambda>(s, w).
     (case quiz s of
        None \<Rightarrow> \<not> submitting s \<and> posts w = []
      | Some q \<Rightarrow>
          (case quiz_questions q of
             None \<Rightarrow> False
           | Some qs \<Rightarrow>
               currentIndex s < length qs \<and>
               (if posts w = [] then length (answers s) = currentIndex s \<and> \<not> submitting s
                else currentIndex s + 1 = length qs \<and> length qs \<le> length (answers s)))))"

text \<open>
  The records expected from a run of accepted answers that starts at question \<open>k\<close>, which
  became current at clock reading \<open>t\<close>: each input is recorded for the next question, with
  the time from the moment its question became current (the loading of the quiz for the
  first, the second clock reading of the previous answer for the others) to its own first
  clock reading.
\<close>

fun recorded :: "question list \<Rightarrow> nat \<Rightarrow> int \<Rightarrow> (string \<times> int \<times> int) list \<Rightarrow> answerData list" where
  "recorded qs k t [] = []"
| "recorded qs k t ((rawInput, now1, now2) # inputs) =
     \<lparr>question_id = q_id (qs ! k), user_answer = rawInput,
      time_taken = js_divide (js_subtract (of_int now1) (of_int t)) 1000, is_correct = False\<rparr>
       # recorded qs (k + 1) now2 inputs"



section \<open>A one-question session, step by step\<close>

text \<open>
  A quiz of one question with a text input, stored under \<^verbatim>\<open>currentQuiz\<close>. The stored texts
  stand for JSON texts; \<open>demo_parse\<close> reads them as \<^verbatim>\<open>JSON.parse\<close> would read a quiz with one
  question and \<^verbatim>\<open>null\<close>, and \<open>demo_empty_parse\<close> as it would read a quiz with an empty
  question list.
\<close>

definition demo_question :: question where
  "demo_question =
     \<lparr>q_id = ''q1'', q_type = ''short'', q_question = ''2 + 5 = ?'', q_options = None,
      q_hint = None, q_story_context = None\<rparr>"

definition demo_quiz :: quiz_payload where
  "demo_quiz =
     \<lparr>quiz_subject = ''Maths'', quiz_topic = ''Addition'', quiz_mode = None,
      quiz_questions = Some [demo_question]\<rparr>"

definition demo_empty_quiz :: quiz_payload where
  "demo_empty_quiz =
     \<lparr>quiz_subject = ''Maths'', quiz_topic = ''Addition'', quiz_mode = None,
      quiz_questions = Some []\<rparr>"

definition demo_parse :: "string \<Rightarrow> parsed" where
  "demo_parse txt =
     (if txt = ''one-question quiz'' then JsonQuiz demo_quiz
      else if txt = ''null'' then JsonNull
      else JsonSyntaxError)"

definition demo_empty_parse :: "string \<Rightarrow> parsed" where
  "demo_empty_parse txt =
     (if txt = ''empty quiz'' then JsonQuiz demo_empty_quiz else JsonSyntaxError)"

definition demo_stringify :: "result \<Rightarrow> string" where
  "demo_stringify res = result_id res @ '':'' @ result_rest res"

definition demo_result :: result where
  "demo_result = \<lparr>result_id = ''r9'', result_rest = ''score 100''\<rparr>"

definition demo_store :: "string \<rightharpoonup> string" where
  "demo_store = [''currentQuiz'' \<mapsto> ''one-question quiz'', ''theme'' \<mapsto> ''dark'']"

definition demo_empty_store :: "string \<rightharpoonup> string" where
  "demo_empty_store = [''currentQuiz'' \<mapsto> ''empty quiz'']"

text \<open>The session after mounting at clock reading 1000.\<close>

definition demo_state0 :: state where
  "demo_state0 =
     \<lparr>quiz = Some demo_quiz, currentIndex = 0, answers = [], userAnswer = [],
      startTime = 1000, questionStartTime = 1000, submitting = False, showHint = False\<rparr>"

definition demo_world0 :: world where
  "demo_world0 = \<lparr>sessionStorage = demo_store, toasts = [], navigations = [], posts = []\<rparr>"

text \<open>After the answer 7 is submitted at 4000: the request is posted.\<close>

definition demo_answer1 :: answerData where
  "demo_answer1 = \<lparr>question_id = ''q1'', user_answer = ''7'', time_taken = 3, is_correct = False\<rparr>"

definition demo_state1 :: state where
  "demo_state1 =
     \<lparr>quiz = Some demo_quiz, currentIndex = 0, answers = [demo_answer1], userAnswer = [],
      startTime = 1000, questionStartTime = 1000, submitting = True, showHint = False\<rparr>"

definition demo_world1 :: world where
  "demo_world1 =
     \<lparr>sessionStorage = demo_store, toasts = [], navigations = [],
      posts = [\<lparr>quiz_id = ''quiz-1'', payload_answers = [demo_answer1]\<rparr>]\<rparr>"

text \<open>After that request failed.\<close>

definition demo_state2 :: state where
  "demo_state2 =
     \<lparr>quiz = Some demo_quiz, currentIndex = 0, answers = [demo_answer1], userAnswer = [],
      startTime = 1000, questionStartTime = 1000, submitting = False, showHint = False\<rparr>"

definition demo_world2 :: world where
  "demo_world2 =
     \<lparr>sessionStorage = demo_store, toasts = [''Failed to submit quiz''], navigations = [],
      posts = [\<lparr>quiz_id = ''quiz-1'', payload_answers = [demo_answer1]\<rparr>]\<rparr>"

text \<open>After the answer 8 is then submitted at 9000: a second request is posted.\<close>

definition demo_answer2 :: answerData where
  "demo_answer2 = \<lparr>question_id = ''q1'', user_answer = ''8'', time_taken = 8, is_correct = False\<rparr>"

definition demo_state3 :: state where
  "demo_state3 =
     \<lparr>quiz = Some demo_quiz, currentIndex = 0, answers = [demo_answer1, demo_answer2],
      userAnswer = [], startTime = 1000, questionStartTime = 1000, submitting = True,
      showHint = False\<rparr>"

definition demo_world3 :: world where
  "demo_world3 =
     \<lparr>sessionStorage = demo_store, toasts = [''Failed to submit quiz''], navigations = [],
      posts = [\<lparr>quiz_id = ''quiz-1'', payload_answers = [demo_answer1]\<rparr>,
               \<lparr>quiz_id = ''quiz-1'', payload_answers = [demo_answer1, demo_answer2]\<rparr>]\<rparr>"

section \<open>A two-question session, step by step\<close>

text \<open>
  A quiz of two questions: a multiple-choice question with the options "A) x" and "B) y",
  then a question with a text input. The first answer is given at clock reading 3000 (the
  next question starts at 3001), the second at 7001.
\<close>

definition duo_q1 :: question where
  "duo_q1 =
     \<lparr>q_id = ''m1'', q_type = ''mcq'', q_question = ''x or y?'',
      q_options = Some [''A) x'', ''B) y''], q_hint = None, q_story_context = None\<rparr>"

definition duo_q2 :: question where
  "duo_q2 =
     \<lparr>q_id = ''m2'', q_type = ''short'', q_question = ''6 * 7 = ?'', q_options = None,
      q_hint = None, q_story_context = None\<rparr>"

definition duo_quiz :: quiz_payload where
  "duo_quiz =
     \<lparr>quiz_subject = ''Maths'', quiz_topic = ''Mixed'', quiz_mode = None,
      quiz_questions = Some [duo_q1, duo_q2]\<rparr>"

definition duo_parse :: "string \<Rightarrow> parsed" where
  "duo_parse txt = (if txt = ''two-question quiz'' then JsonQuiz duo_quiz else JsonSyntaxError)"

definition duo_store :: "string \<rightharpoonup> string" where
  "duo_store = [''currentQuiz'' \<mapsto> ''two-question quiz'']"

definition duo_state0 :: state where
  "duo_state0 =
     \<lparr>quiz = Some duo_quiz, currentIndex = 0, answers = [], userAnswer = [],
      startTime = 1000, questionStartTime = 1000, submitting = False, showHint = False\<rparr>"

definition duo_world0 :: world where
  "duo_world0 = \<lparr>sessionStorage = duo_store, toasts = [], navigations = [], posts = []\<rparr>"

definition duo_answer1 :: answerData where
  "duo_answer1 = \<lparr>question_id = ''m1'', user_answer = ''A'', time_taken = 2, is_correct = False\<rparr>"

definition duo_answer2 :: answerData where
  "duo_answer2 = \<lparr>question_id = ''m2'', user_answer = ''42'', time_taken = 4, is_correct = False\<rparr>"

definition duo_state1 :: state where
  "duo_state1 =
     \<lparr>quiz = Some duo_quiz, currentIndex = 1, answers = [duo_answer1], userAnswer = [],
      startTime = 1000, questionStartTime = 3001, submitting = False, showHint = False\<rparr>"

definition duo_state2 :: state where
  "duo_state2 =
     \<lparr>quiz = Some duo_quiz, currentIndex = 1, answers = [duo_answer1, duo_answer2],
      userAnswer = [], startTime = 1000, questionStartTime = 3001, submitting = True,
      showHint = False\<rparr>"

definition duo_world2 :: world where
  "duo_world2 =
     \<lparr>sessionStorage = duo_store, toasts = [], navigations = [],
      posts = [\<lparr>quiz_id = ''quiz-2'', payload_answers = [duo_answer1, duo_answer2]\<rparr>]\<rparr>"

section \<open>Clock readings of a run of answers\<close>



text \<open>The cells of the older page, extended by a hidden hint to cells of the current page.\<close>

definition hint_hidden :: "legacy_state \<Rightarrow> state" where
  "hint_hidden l =
     \<lparr>quiz = quiz l, currentIndex = currentIndex l, answers = answers l,
      userAnswer = userAnswer l, startTime = startTime l,
      questionStartTime = questionStartTime l, submitting = submitting l, showHint = False\<rparr>"

section \<open>An answer one millisecond after loading\<close>




section \<open>The older page on a quiz without questions\<close>

text \<open>The cells of the older page after it loaded \<open>demo_empty_quiz\<close> at clock reading 1000.\<close>

definition legacy_empty_state :: legacy_state where
  "legacy_empty_state =
     \<lparr>quiz = Some demo_empty_quiz, currentIndex = 0, answers = [], userAnswer = [],
      startTime = 1000, questionStartTime = 1000, submitting = False\<rparr>"

section \<open>Rounding to doubles\<close>


lemma round_half_even_of_int [simp]: "round_half_even (of_int n) = n"
  by (simp add: round_half_even_def)


lemma floor_log2_bounds:
  assumes "0 < x"
  shows "2 powi floor_log2 x \<le> x" "x < 2 powi (floor_log2 x + 1)"
proof -
  obtain p q where pq: "quotient_of x = (p, q)" by (cases "quotient_of x")
  then have q: "0 < q" and x: "x = of_int p / of_int q"
    using quotient_of_denom_pos quotient_of_div by blast+
  with assms have p: "0 < p" by (simp add: zero_less_divide_iff)
  let ?d = "bitlen p - bitlen q"
  from bitlen_bounds[OF p] have p1: "2 ^ nat (bitlen p - 1) \<le> p" and p2: "p < 2 ^ nat (bitlen p)" by auto
  from bitlen_bounds[OF q] have q1: "2 ^ nat (bitlen q - 1) \<le> q" and q2: "q < 2 ^ nat (bitlen q)" by auto
  have bp: "1 \<le> bitlen p" and bq: "1 \<le> bitlen q" using p q by (auto simp: bitlen_alt_def)
  have P1: "(2::rat) powi (bitlen p - 1) \<le> of_int p"
  proof -
    have "(2::rat) powi (bitlen p - 1) = 2 ^ nat (bitlen p - 1)" using bp by (simp add: power_int_def)
    also have "\<dots> = of_int (2 ^ nat (bitlen p - 1))" by simp
    also have "\<dots> \<le> of_int p" using p1 by (subst of_int_le_iff)
    finally show ?thesis .
  qed
  have P2: "of_int p < (2::rat) powi (bitlen p)"
  proof -
    have "of_int p < (of_int (2 ^ nat (bitlen p)) :: rat)" using p2 by (subst of_int_less_iff)
    also have "\<dots> = 2 powi (bitlen p)" using bp by (simp add: power_int_def)
    finally show ?thesis .
  qed
  have Q1: "(2::rat) powi (bitlen q - 1) \<le> of_int q"
  proof -
    have "(2::rat) powi (bitlen q - 1) = 2 ^ nat (bitlen q - 1)" using bq by (simp add: power_int_def)
    also have "\<dots> = of_int (2 ^ nat (bitlen q - 1))" by simp
    also have "\<dots> \<le> of_int q" using q1 by (subst of_int_le_iff)
    finally show ?thesis .
  qed
  have Q2: "of_int q < (2::rat) powi (bitlen q)"
  proof -
    have "of_int q < (of_int (2 ^ nat (bitlen q)) :: rat)" using q2 by (subst of_int_less_iff)
    also have "\<dots> = 2 powi (bitlen q)" using bq by (simp add: power_int_def)
    finally show ?thesis .
  qed
  have qpos: "(0::rat) < of_int q" using q by simp
  \<comment> \<open>lower: 2^(d-1) < x\<close>
  have low: "(2::rat) powi (?d - 1) < x"
  proof -
    have "(2::rat) powi (?d - 1) * of_int q < 2 powi (?d - 1) * 2 powi (bitlen q)"
      using Q2 by simp
    also have "\<dots> = 2 powi (bitlen p - 1)"
      by (simp add: power_int_add[symmetric])
    also have "\<dots> \<le> of_int p" by (rule P1)
    finally show ?thesis using qpos by (simp add: x pos_less_divide_eq)
  qed
  have up: "x < (2::rat) powi (?d + 1)"
  proof -
    have "of_int p < (2::rat) powi (bitlen p)" by (rule P2)
    also have "\<dots> = 2 powi (?d + 1) * 2 powi (bitlen q - 1)"
      by (simp add: power_int_add[symmetric])
    also have "\<dots> \<le> 2 powi (?d + 1) * of_int q"
      using Q1 by simp
    finally show ?thesis using qpos by (simp add: x pos_divide_less_eq)
  qed
  show "2 powi floor_log2 x \<le> x"
    using low by (auto simp: floor_log2_def pq Let_def)
  show "x < 2 powi (floor_log2 x + 1)"
    using up by (auto simp: floor_log2_def pq Let_def not_le)
qed




lemma to_double_of_int:
  assumes "\<bar>n\<bar> \<le> 2 ^ 53"
  shows "to_double (of_int n) = of_int n"
proof (cases "n = 0")
  case True
  then show ?thesis by (simp add: to_double_def)
next
  case False
  define a :: rat where "a = of_int \<bar>n\<bar>"
  define e where "e = floor_log2 a - 52"
  have a: "0 < a" using False by (simp add: a_def)
  have abs: "\<bar>of_int n :: rat\<bar> = a" by (simp add: a_def)
  have le: "a \<le> 2 ^ 53"
  proof -
    have "(of_int \<bar>n\<bar> :: rat) \<le> of_int (2 ^ 53)" using assms by (subst of_int_le_iff)
    then show ?thesis by (simp add: a_def)
  qed
  have "(2::rat) powi floor_log2 a \<le> 2 powi 53"
    using floor_log2_bounds(1)[OF a] le by simp
  then have fl: "floor_log2 a \<le> 53"
    by (rule power_int_le_imp_le_exp[rotated]) simp_all
  have td: "to_double (of_int n) = sgn (of_int n) * of_int (round_half_even (a / 2 powi e)) * 2 powi e"
    using False by (simp add: to_double_def Let_def abs e_def)
  have "of_int (round_half_even (a / 2 powi e)) * 2 powi e = a"
  proof (cases "e \<le> 0")
    case True
    then have "a / 2 powi e = of_int (\<bar>n\<bar> * 2 ^ nat (- e))"
      by (simp add: a_def power_int_def field_simps)
    then have "round_half_even (a / 2 powi e) = \<bar>n\<bar> * 2 ^ nat (- e)"
      by (simp only: round_half_even_of_int)
    then show ?thesis using True by (simp add: a_def power_int_def field_simps)
  next
    case False
    with fl have e1: "e = 1" by (simp add: e_def)
    then have "floor_log2 a = 53" by (simp add: e_def)
    with floor_log2_bounds(1)[OF a] le have "a = 2 ^ 53" by simp
    then have "a / 2 powi e = of_int (2 ^ 52)" using e1 by simp
    then have "round_half_even (a / 2 powi e) = 2 ^ 52"
      by (simp only: round_half_even_of_int)
    then show ?thesis using e1 \<open>a = 2 ^ 53\<close> by simp
  qed
  with td have "to_double (of_int n) = sgn (of_int n) * a" by (simp add: mult.assoc)
  also have "\<dots> = of_int n" using abs sgn_mult_abs[of "of_int n :: rat"] by simp
  finally show ?thesis .
qed

lemma to_double_numeral [simp]:
  "numeral k \<le> (2 ^ 53 :: int) \<Longrightarrow> to_double (numeral k) = numeral k"
  using to_double_of_int[of "numeral k"] by simp

lemma to_double_0 [simp]: "to_double 0 = 0"
  by (simp add: to_double_def)





section \<open>The handler, case by case\<close>

lemma handle_blank:
  "trim (userAnswer s) = [] \<Longrightarrow>
   handleAnswerSubmit quizId now1 now2 (s, w) = Inr (s, toast_error ''Please provide an answer'' w)"
  by (simp add: handleAnswerSubmit_def)

lemma handle_next:
  assumes "trim (userAnswer s) \<noteq> []" "quiz s = Some q" "quiz_questions q = Some qs"
    and "currentIndex s + 1 < length qs"
  shows "handleAnswerSubmit quizId now1 now2 (s, w) =
         Inr (s\<lparr>answers := answers s @ [new_answer now1 s qs], userAnswer := [],
                showHint := False, currentIndex := currentIndex s + 1,
                questionStartTime := now2\<rparr>, w)"
  using assms by (simp add: handleAnswerSubmit_def new_answer_def Let_def)

lemma handle_last:
  assumes "trim (userAnswer s) \<noteq> []" "quiz s = Some q" "quiz_questions q = Some qs"
    and "currentIndex s + 1 = length qs"
  shows "handleAnswerSubmit quizId now1 now2 (s, w) =
         Inr (s\<lparr>answers := answers s @ [new_answer now1 s qs], userAnswer := [],
                showHint := False, submitting := True\<rparr>,
              w\<lparr>posts := posts w @
                 [\<lparr>quiz_id = quizId, payload_answers = answers s @ [new_answer now1 s qs]\<rparr>]\<rparr>)"
  using assms by (auto simp add: handleAnswerSubmit_def new_answer_def Let_def submitQuiz_def)

lemma handle_error:
  assumes "trim (userAnswer s) \<noteq> []" "current_question s = None"
  shows "handleAnswerSubmit quizId now1 now2 (s, w) = Inl TypeError"
  using assms by (auto simp add: handleAnswerSubmit_def current_question_def split: option.splits if_splits)


lemma fire_cases:
  assumes "fire quizId J ev c = Some c'"
  shows "(status_of c = Answering \<and>
            ((\<exists>v. ev = Type v \<and> c' = setUserAnswer v c) \<or>
             (\<exists>idx opt. ev = Click idx \<and> c' = selectOption opt c) \<or>
             (ev = Hint \<and> c' = setShowHint True c) \<or>
             (\<exists>a r. ev = Submit a r \<and> handleAnswerSubmit quizId a r c = Inr c'))) \<or>
         (status_of c = Submitting \<and>
            ((\<exists>res. ev = Resolve res \<and> c' = submitQuiz_resolved J res c) \<or>
             (ev = Reject \<and> c' = submitQuiz_rejected c)))"
  using assms
  by (auto simp: fire_def split: status.splits option.splits event.splits if_splits sum.splits)

lemma handle_cases:
  assumes "handleAnswerSubmit quizId a r (s, w) = Inr c'"
  shows "(trim (userAnswer s) = [] \<and> c' = (s, toast_error ''Please provide an answer'' w)) \<or>
         (\<exists>q qs. trim (userAnswer s) \<noteq> [] \<and> quiz s = Some q \<and> quiz_questions q = Some qs \<and>
            currentIndex s + 1 < length qs \<and>
            c' = (s\<lparr>answers := answers s @ [new_answer a s qs], userAnswer := [],
                    showHint := False, currentIndex := currentIndex s + 1,
                    questionStartTime := r\<rparr>, w)) \<or>
         (\<exists>q qs. trim (userAnswer s) \<noteq> [] \<and> quiz s = Some q \<and> quiz_questions q = Some qs \<and>
            currentIndex s + 1 = length qs \<and>
            c' = (s\<lparr>answers := answers s @ [new_answer a s qs], userAnswer := [],
                    showHint := False, submitting := True\<rparr>,
                  w\<lparr>posts := posts w @
                     [\<lparr>quiz_id = quizId, payload_answers = answers s @ [new_answer a s qs]\<rparr>]\<rparr>))"
proof (cases "trim (userAnswer s) = []")
  case True
  with assms show ?thesis by (simp add: handle_blank)
next
  case False
  from assms False obtain q qs where q: "quiz s = Some q" "quiz_questions q = Some qs"
      "currentIndex s < length qs"
    by (auto simp: handleAnswerSubmit_def split: option.splits if_splits)
  show ?thesis
  proof (cases "currentIndex s + 1 < length qs")
    case True
    with assms False q show ?thesis by (simp add: handle_next)
  next
    case False
    with q have "currentIndex s + 1 = length qs" by simp
    with assms \<open>trim (userAnswer s) \<noteq> []\<close> q show ?thesis by (simp add: handle_last)
  qed
qed

lemma inv_setUserAnswer: "session_inv c \<Longrightarrow> session_inv (setUserAnswer v c)"
  by (cases c) (auto simp: session_inv_def setUserAnswer_def split: option.splits)

lemma inv_setShowHint: "session_inv c \<Longrightarrow> session_inv (setShowHint b c)"
  by (cases c) (auto simp: session_inv_def setShowHint_def split: option.splits)

lemma inv_handle:
  assumes "session_inv c" "status_of c = Answering" "handleAnswerSubmit quizId a r c = Inr c'"
  shows "session_inv c'"
proof -
  obtain s w where c: "c = (s, w)" by (cases c)
  from assms(2) c have ns: "\<not> submitting s"
    by (auto simp: status_of_def split: if_splits)
  from handle_cases[OF assms(3)[unfolded c]] show ?thesis
  proof (elim disjE exE conjE)
    assume "c' = (s, toast_error ''Please provide an answer'' w)"
    with assms(1) c show ?thesis
      by (auto simp: session_inv_def toast_error_def split: option.splits)
  next
    fix q qs
    assume "quiz s = Some q" "quiz_questions q = Some qs" "currentIndex s + 1 < length qs"
      "c' = (s\<lparr>answers := answers s @ [new_answer a s qs], userAnswer := [],
                    showHint := False, currentIndex := currentIndex s + 1,
                    questionStartTime := r\<rparr>, w)"
    with assms(1) c show ?thesis
      by (auto simp: session_inv_def split: if_splits)
  next
    fix q qs
    assume "quiz s = Some q" "quiz_questions q = Some qs" "currentIndex s + 1 = length qs"
      "c' = (s\<lparr>answers := answers s @ [new_answer a s qs], userAnswer := [],
                    showHint := False, submitting := True\<rparr>,
                  w\<lparr>posts := posts w @
                     [\<lparr>quiz_id = quizId, payload_answers = answers s @ [new_answer a s qs]\<rparr>]\<rparr>)"
    with assms(1) c show ?thesis
      by (auto simp: session_inv_def split: if_splits)
  qed
qed

lemma inv_resolved:
  assumes "session_inv c" "status_of c = Submitting"
  shows "session_inv (submitQuiz_resolved J res c)"
  using assms
  by (cases c) (auto simp: session_inv_def submitQuiz_resolved_def navigate_def status_of_def
      split: option.splits if_splits)

lemma inv_rejected:
  assumes "session_inv c" "status_of c = Submitting"
  shows "session_inv (submitQuiz_rejected c)"
  using assms
  by (cases c) (auto simp: session_inv_def submitQuiz_rejected_def toast_error_def status_of_def
      split: option.splits if_splits)

lemma inv_fire:
  assumes "session_inv c" "fire quizId J ev c = Some c'"
  shows "session_inv c'"
  using fire_cases[OF assms(2)] assms(1)
  by (auto simp: selectOption_def intro: inv_setUserAnswer inv_setShowHint inv_handle
      inv_resolved inv_rejected)

lemma inv_run:
  "session_inv c \<Longrightarrow> run quizId J evs c = Some c' \<Longrightarrow> session_inv c'"
  by (induction evs arbitrary: c) (auto split: option.splits dest: inv_fire)

lemma inv_mount: "session_inv (mount P n1 n2 n3 store)"
  by (auto simp: session_inv_def mount_def loadQuiz_def initial_state_def fresh_world_def
      navigate_def toast_error_def split: option.splits parsed.splits)


lemma current_question_userAnswer [simp]:
  "current_question (s\<lparr>userAnswer := v\<rparr>) = current_question s"
  by (simp add: current_question_def split: option.splits)

lemma status_of_userAnswer [simp]:
  "status_of (s\<lparr>userAnswer := v\<rparr>, w) = status_of (s, w)"
  by (simp add: status_of_def)

lemma status_of_toast [simp]:
  "status_of (s, toast_error msg w) = status_of (s, w)"
  by (simp add: status_of_def toast_error_def)


section \<open>The one-question session, evaluated\<close>

lemmas demo_defs =
  demo_question_def demo_quiz_def demo_parse_def demo_stringify_def demo_result_def
  demo_store_def demo_state0_def demo_world0_def demo_answer1_def demo_state1_def
  demo_world1_def demo_state2_def demo_world2_def demo_answer2_def demo_state3_def
  demo_world3_def

lemma demo_mount: "mount demo_parse 1000 1000 1000 demo_store = (demo_state0, demo_world0)"
  by (simp add: mount_def loadQuiz_def initial_state_def fresh_world_def demo_defs)

lemma demo_trim7 [simp]: "trim ''7'' = ''7''" "trim ''8'' = ''8''"
  by (simp_all add: trim_def is_space_def)

lemma demo_status0: "status_of (demo_state0, demo_world0) = Answering"
  by (simp add: status_of_def current_question_def demo_defs)

lemma demo_status1: "status_of (demo_state1, demo_world1) = Submitting"
  by (simp add: status_of_def current_question_def demo_defs)

lemma demo_status2: "status_of (demo_state2, demo_world2) = Answering"
  by (simp add: status_of_def current_question_def demo_defs)


lemma demo_current:
  "current_question demo_state0 = Some demo_question"
  "current_question demo_state2 = Some demo_question"
  by (simp_all add: current_question_def demo_defs)

lemma demo_shown: "shown_options demo_question = None"
  by (simp add: shown_options_def demo_defs)

lemma demo_step1:
  "run ''quiz-1'' demo_stringify [Type ''7'', Submit 4000 4001] (demo_state0, demo_world0) =
     Some (demo_state1, demo_world1)"
proof -
  have a: "fire ''quiz-1'' demo_stringify (Type ''7'') (demo_state0, demo_world0) =
             Some (demo_state0\<lparr>userAnswer := ''7''\<rparr>, demo_world0)"
    by (simp add: fire_def demo_status0 demo_current demo_shown setUserAnswer_def)
  have b: "handleAnswerSubmit ''quiz-1'' 4000 4001 (demo_state0\<lparr>userAnswer := ''7''\<rparr>, demo_world0) =
             Inr (demo_state1, demo_world1)"
    by (simp add: handleAnswerSubmit_def submitQuiz_def Let_def js_divide_def js_subtract_def demo_defs)
  have c: "fire ''quiz-1'' demo_stringify (Submit 4000 4001)
             (demo_state0\<lparr>userAnswer := ''7''\<rparr>, demo_world0) = Some (demo_state1, demo_world1)"
    by (simp add: fire_def demo_status0 demo_current demo_shown b)
  show ?thesis by (simp add: a c)
qed

lemma demo_step2:
  "fire ''quiz-1'' demo_stringify Reject (demo_state1, demo_world1) =
     Some (demo_state2, demo_world2)"
  by (simp add: fire_def demo_status1)
     (simp add: submitQuiz_rejected_def toast_error_def demo_defs)


lemma run_append:
  "run quizId J (evs @ evs') c =
     (case run quizId J evs c of None \<Rightarrow> None | Some c' \<Rightarrow> run quizId J evs' c')"
  by (induction evs arbitrary: c) (auto split: option.splits)

section \<open>Runs of accepted answers\<close>

lemma length_recorded [simp]: "length (recorded qs k t inputs) = length inputs"
  by (induction qs k t inputs rule: recorded.induct) auto

lemma recordAnswers_straight:
  assumes "quiz s = Some q" "quiz_questions q = Some qs"
    and "\<forall>i \<in> set inputs. trim (fst i) \<noteq> []"
    and "currentIndex s + length inputs \<le> length qs" "inputs \<noteq> []"
  shows "\<exists>s' w'. recordAnswers quizId inputs (s, w) = Inr (s', w') \<and>
           quiz s' = quiz s \<and>
           answers s' = answers s @ recorded qs (currentIndex s) (questionStartTime s) inputs \<and>
           navigations w' = navigations w \<and> toasts w' = toasts w \<and>
           sessionStorage w' = sessionStorage w \<and>
           (if currentIndex s + length inputs < length qs
            then currentIndex s' = currentIndex s + length inputs \<and>
                 submitting s' = submitting s \<and> posts w' = posts w
            else currentIndex s' + 1 = length qs \<and> submitting s' \<and>
                 posts w' = posts w @ [\<lparr>quiz_id = quizId, payload_answers = answers s'\<rparr>])"
  using assms
proof (induction inputs arbitrary: s)
  case Nil
  then show ?case by simp
next
  case (Cons i inputs)
  obtain raw a r where i: "i = (raw, a, r)" by (cases i)
  let ?s0 = "s\<lparr>userAnswer := raw\<rparr>"
  from Cons.prems i have nb: "trim (userAnswer ?s0) \<noteq> []" by simp
  have q0: "quiz ?s0 = Some q" using Cons.prems by simp
  show ?case
  proof (cases "currentIndex s + 1 < length qs")
    case True
    let ?s1 = "?s0\<lparr>answers := answers ?s0 @ [new_answer a ?s0 qs], userAnswer := [],
                showHint := False, currentIndex := currentIndex ?s0 + 1,
                questionStartTime := r\<rparr>"
    have h: "handleAnswerSubmit quizId a r (?s0, w) = Inr (?s1, w)"
      using handle_next[OF nb q0 Cons.prems(2), of quizId a r w] True by simp
    show ?thesis
    proof (cases "inputs = []")
      case True
      with h i \<open>currentIndex s + 1 < length qs\<close> show ?thesis
        by (simp add: recordAnswer_def setUserAnswer_def new_answer_def)
    next
      case False
      have "\<exists>s' w'. recordAnswers quizId inputs (?s1, w) = Inr (s', w') \<and>
           quiz s' = quiz ?s1 \<and>
           answers s' = answers ?s1 @ recorded qs (currentIndex ?s1) (questionStartTime ?s1) inputs \<and>
           navigations w' = navigations w \<and> toasts w' = toasts w \<and>
           sessionStorage w' = sessionStorage w \<and>
           (if currentIndex ?s1 + length inputs < length qs
            then currentIndex s' = currentIndex ?s1 + length inputs \<and>
                 submitting s' = submitting ?s1 \<and> posts w' = posts w
            else currentIndex s' + 1 = length qs \<and> submitting s' \<and>
                 posts w' = posts w @ [\<lparr>quiz_id = quizId, payload_answers = answers s'\<rparr>])"
        using Cons.prems False by (intro Cons.IH) auto
      then obtain s' w' where r: "recordAnswers quizId inputs (?s1, w) = Inr (s', w')"
           "quiz s' = quiz ?s1"
           "answers s' = answers ?s1 @ recorded qs (currentIndex ?s1) (questionStartTime ?s1) inputs"
           "navigations w' = navigations w" "toasts w' = toasts w"
           "sessionStorage w' = sessionStorage w"
           "(if currentIndex ?s1 + length inputs < length qs
            then currentIndex s' = currentIndex ?s1 + length inputs \<and>
                 submitting s' = submitting ?s1 \<and> posts w' = posts w
            else currentIndex s' + 1 = length qs \<and> submitting s' \<and>
                 posts w' = posts w @ [\<lparr>quiz_id = quizId, payload_answers = answers s'\<rparr>])"
        by blast
      have "recordAnswers quizId (i # inputs) (s, w) = Inr (s', w')"
        using h r(1) i by (simp add: recordAnswer_def setUserAnswer_def)
      moreover have "answers s' = answers s @ recorded qs (currentIndex s) (questionStartTime s) (i # inputs)"
        using r(3) i by (simp add: new_answer_def)
      ultimately show ?thesis using r(2,4,5,6,7)
        by (auto split: if_splits)
    qed
  next
    case False
    have len: "currentIndex s + (1 + length inputs) \<le> length qs"
      using Cons.prems(4) by simp
    from len False have "length inputs = 0" by linarith
    then have e: "inputs = []" by simp
    from len False have last: "currentIndex s + 1 = length qs" by linarith
    have h: "handleAnswerSubmit quizId a r (?s0, w) =
         Inr (?s0\<lparr>answers := answers ?s0 @ [new_answer a ?s0 qs], userAnswer := [],
                showHint := False, submitting := True\<rparr>,
              w\<lparr>posts := posts w @
                 [\<lparr>quiz_id = quizId, payload_answers = answers ?s0 @ [new_answer a ?s0 qs]\<rparr>]\<rparr>)"
      using handle_last[OF nb q0 Cons.prems(2), of quizId a r w] last by simp
    show ?thesis using h i e last
      by (simp add: recordAnswer_def setUserAnswer_def new_answer_def)
  qed
qed

section \<open>The two-question session, evaluated\<close>

lemmas duo_defs =
  duo_q1_def duo_q2_def duo_quiz_def duo_parse_def duo_store_def duo_state0_def duo_world0_def
  duo_answer1_def duo_answer2_def duo_state1_def duo_state2_def duo_world2_def

lemma duo_mount: "mount duo_parse 1000 1000 1000 duo_store = (duo_state0, duo_world0)"
  by (simp add: mount_def loadQuiz_def initial_state_def fresh_world_def duo_defs)

lemma duo_trim [simp]: "trim ''A'' = ''A''" "trim ''42'' = ''42''"
  by (simp_all add: trim_def is_space_def)

lemma duo_status:
  "status_of (duo_state0, duo_world0) = Answering"
  "status_of (duo_state1, duo_world0) = Answering"
  "status_of (duo_state2, duo_world2) = Submitting"
  by (simp_all add: status_of_def current_question_def duo_defs)

lemma duo_current:
  "current_question duo_state0 = Some duo_q1"
  "current_question duo_state1 = Some duo_q2"
  by (simp_all add: current_question_def duo_defs)

lemma duo_shown:
  "shown_options duo_q1 = Some [''A) x'', ''B) y'']"
  "shown_options duo_q2 = None"
  by (simp_all add: shown_options_def duo_defs)

lemma duo_handle1:
  "handleAnswerSubmit ''quiz-2'' 3000 3001 (duo_state0\<lparr>userAnswer := ''A''\<rparr>, duo_world0) =
     Inr (duo_state1, duo_world0)"
  by (simp add: handleAnswerSubmit_def Let_def js_divide_def js_subtract_def duo_defs)

lemma duo_handle2:
  "handleAnswerSubmit ''quiz-2'' 7001 7002 (duo_state1\<lparr>userAnswer := ''42''\<rparr>, duo_world0) =
     Inr (duo_state2, duo_world2)"
  by (simp add: handleAnswerSubmit_def submitQuiz_def Let_def js_divide_def js_subtract_def duo_defs)

lemma duo_step1:
  "run ''quiz-2'' J [Click 0, Submit 3000 3001] (duo_state0, duo_world0) =
     Some (duo_state1, duo_world0)"
proof -
  have a: "fire ''quiz-2'' J (Click 0) (duo_state0, duo_world0) =
             Some (duo_state0\<lparr>userAnswer := ''A''\<rparr>, duo_world0)"
    by (simp add: fire_def duo_status duo_current duo_shown selectOption_def setUserAnswer_def
        charAt0_def)
  have c: "fire ''quiz-2'' J (Submit 3000 3001) (duo_state0\<lparr>userAnswer := ''A''\<rparr>, duo_world0) =
             Some (duo_state1, duo_world0)"
    by (simp add: fire_def duo_status duo_current duo_shown duo_handle1)
  show ?thesis by (simp add: a c)
qed

lemma duo_step2:
  "run ''quiz-2'' J [Type ''42'', Submit 7001 7002] (duo_state1, duo_world0) =
     Some (duo_state2, duo_world2)"
proof -
  have a: "fire ''quiz-2'' J (Type ''42'') (duo_state1, duo_world0) =
             Some (duo_state1\<lparr>userAnswer := ''42''\<rparr>, duo_world0)"
    by (simp add: fire_def duo_status duo_current duo_shown setUserAnswer_def)
  have c: "fire ''quiz-2'' J (Submit 7001 7002) (duo_state1\<lparr>userAnswer := ''42''\<rparr>, duo_world0) =
             Some (duo_state2, duo_world2)"
    by (simp add: fire_def duo_status duo_current duo_shown duo_handle2)
  show ?thesis by (simp add: a c)
qed

section \<open>Mounting\<close>

lemma mount_loaded:
  assumes "quiz (fst (mount P n1 n2 n3 store)) = Some q"
  shows "mount P n1 n2 n3 store =
           (initial_state n1 n2\<lparr>quiz := Some q, questionStartTime := n3\<rparr>, fresh_world store)"
    and "\<exists>qs. quiz_questions q = Some qs \<and> qs \<noteq> []"
  using assms
  by (auto simp: mount_def loadQuiz_def initial_state_def split: option.splits parsed.splits if_splits)

lemma status_loaded:
  assumes "quiz_questions q = Some qs" "qs \<noteq> []"
  shows "status_of (initial_state n1 n2\<lparr>quiz := Some q, questionStartTime := n3\<rparr>, fresh_world store)
           = Answering"
  using assms by (simp add: status_of_def current_question_def initial_state_def fresh_world_def)

lemma recordAnswers_from_mount:
  assumes "quiz (fst (mount P n1 n2 n3 store)) = Some q" "quiz_questions q = Some qs"
    and "\<forall>i \<in> set inputs. trim (fst i) \<noteq> []" "length inputs \<le> length qs"
  shows "\<exists>s' w'. recordAnswers quizId inputs (mount P n1 n2 n3 store) = Inr (s', w') \<and>
           quiz s' = Some q \<and> answers s' = recorded qs 0 n3 inputs \<and>
           navigations w' = [] \<and> toasts w' = [] \<and> sessionStorage w' = store \<and>
           (if length inputs < length qs
            then currentIndex s' = length inputs \<and> \<not> submitting s' \<and> posts w' = []
            else currentIndex s' + 1 = length qs \<and> submitting s' \<and>
                 posts w' = [\<lparr>quiz_id = quizId, payload_answers = answers s'\<rparr>])"
proof -
  let ?s0 = "initial_state n1 n2\<lparr>quiz := Some q, questionStartTime := n3\<rparr>"
  have m: "mount P n1 n2 n3 store = (?s0, fresh_world store)"
    using assms(1) by (rule mount_loaded(1))
  have ne: "qs \<noteq> []" using mount_loaded(2)[OF assms(1)] assms(2) by simp
  show ?thesis
  proof (cases "inputs = []")
    case True
    with m ne assms(2) show ?thesis
      by (simp add: initial_state_def fresh_world_def)
  next
    case False
    have "\<exists>s' w'. recordAnswers quizId inputs (?s0, fresh_world store) = Inr (s', w') \<and>
           quiz s' = quiz ?s0 \<and>
           answers s' = answers ?s0 @ recorded qs (currentIndex ?s0) (questionStartTime ?s0) inputs \<and>
           navigations w' = navigations (fresh_world store) \<and> toasts w' = toasts (fresh_world store) \<and>
           sessionStorage w' = sessionStorage (fresh_world store) \<and>
           (if currentIndex ?s0 + length inputs < length qs
            then currentIndex s' = currentIndex ?s0 + length inputs \<and>
                 submitting s' = submitting ?s0 \<and> posts w' = posts (fresh_world store)
            else currentIndex s' + 1 = length qs \<and> submitting s' \<and>
                 posts w' = posts (fresh_world store) @ [\<lparr>quiz_id = quizId, payload_answers = answers s'\<rparr>])"
      using assms False by (intro recordAnswers_straight) (auto simp: initial_state_def)
    then obtain s' w' where
      "recordAnswers quizId inputs (?s0, fresh_world store) = Inr (s', w') \<and>
           quiz s' = quiz ?s0 \<and>
           answers s' = answers ?s0 @ recorded qs (currentIndex ?s0) (questionStartTime ?s0) inputs \<and>
           navigations w' = navigations (fresh_world store) \<and> toasts w' = toasts (fresh_world store) \<and>
           sessionStorage w' = sessionStorage (fresh_world store) \<and>
           (if currentIndex ?s0 + length inputs < length qs
            then currentIndex s' = currentIndex ?s0 + length inputs \<and>
                 submitting s' = submitting ?s0 \<and> posts w' = posts (fresh_world store)
            else currentIndex s' + 1 = length qs \<and> submitting s' \<and>
                 posts w' = posts (fresh_world store) @ [\<lparr>quiz_id = quizId, payload_answers = answers s'\<rparr>])"
      by blast
    then show ?thesis unfolding m
      by (intro exI[of _ s'] exI[of _ w'])
         (simp add: initial_state_def fresh_world_def split: if_splits)
  qed
qed


lemma fire_index:
  assumes "fire quizId J ev c = Some c'"
  shows "quiz (fst c') = quiz (fst c) \<and>
         (currentIndex (fst c') = currentIndex (fst c) \<or>
          currentIndex (fst c') = currentIndex (fst c) + 1)"
proof -
  obtain s w where c: "c = (s, w)" by (cases c)
  from fire_cases[OF assms] show ?thesis
  proof (elim disjE conjE exE)
    fix a r assume "ev = Submit a r" "handleAnswerSubmit quizId a r c = Inr c'"
    with handle_cases[of quizId a r s w c'] c show ?thesis by auto
  qed (auto simp: c setUserAnswer_def selectOption_def setShowHint_def submitQuiz_resolved_def
        submitQuiz_rejected_def)
qed

lemma run_index:
  "run quizId J evs c = Some c' \<Longrightarrow>
   quiz (fst c') = quiz (fst c) \<and> currentIndex (fst c) \<le> currentIndex (fst c')"
proof (induction evs arbitrary: c)
  case Nil
  then show ?case by simp
next
  case (Cons ev evs)
  then obtain c1 where f: "fire quizId J ev c = Some c1" and r: "run quizId J evs c1 = Some c'"
    by (auto split: option.splits)
  from fire_index[OF f] Cons.IH[OF r] show ?case by auto
qed

lemma handle_accepts:
  assumes "trim (userAnswer s) \<noteq> []" "handleAnswerSubmit quizId now1 now2 (s, w) = Inr (s', w')"
  shows "\<exists>q qs. quiz s = Some q \<and> quiz_questions q = Some qs \<and> currentIndex s < length qs \<and>
           answers s' = answers s @ [new_answer now1 s qs] \<and>
           (if currentIndex s + 1 < length qs
            then currentIndex s' = currentIndex s + 1 \<and> questionStartTime s' = now2 \<and> w' = w
            else currentIndex s' = currentIndex s \<and> questionStartTime s' = questionStartTime s \<and>
                 submitting s' \<and>
                 posts w' = posts w @ [\<lparr>quiz_id = quizId, payload_answers = answers s'\<rparr>])"
proof -
  from handle_cases[OF assms(2)] assms(1) show ?thesis
  proof (elim disjE exE conjE)
    fix q qs
    assume "quiz s = Some q" "quiz_questions q = Some qs" "currentIndex s + 1 < length qs"
      "(s', w') = (s\<lparr>answers := answers s @ [new_answer now1 s qs], userAnswer := [],
                    showHint := False, currentIndex := currentIndex s + 1,
                    questionStartTime := now2\<rparr>, w)"
    then show ?thesis by (intro exI[of _ q] exI[of _ qs]) simp
  next
    fix q qs
    assume "quiz s = Some q" "quiz_questions q = Some qs" "currentIndex s + 1 = length qs"
      "(s', w') = (s\<lparr>answers := answers s @ [new_answer now1 s qs], userAnswer := [],
                    showHint := False, submitting := True\<rparr>,
                  w\<lparr>posts := posts w @
                     [\<lparr>quiz_id = quizId, payload_answers = answers s @ [new_answer now1 s qs]\<rparr>]\<rparr>)"
    then show ?thesis by (intro exI[of _ q] exI[of _ qs]) auto
  qed simp
qed

lemma duo_click:
  "fire ''quiz-2'' J (Click 0) (duo_state0, duo_world0) =
     Some (duo_state0\<lparr>userAnswer := ''A''\<rparr>, duo_world0)"
  by (simp add: fire_def duo_status duo_current duo_shown selectOption_def setUserAnswer_def
      charAt0_def)

lemma fire_questionStartTime:
  assumes "fire quizId J ev (s, w) = Some (s', w')" "questionStartTime s' \<noteq> questionStartTime s"
  shows "\<exists>a r. ev = Submit a r \<and> questionStartTime s' = r \<and> currentIndex s' = currentIndex s + 1"
proof -
  from fire_cases[OF assms(1)] show ?thesis
  proof (elim disjE conjE exE)
    fix a r assume e: "ev = Submit a r" and h: "handleAnswerSubmit quizId a r (s, w) = Inr (s', w')"
    from handle_cases[OF h] assms(2) e show ?thesis by auto
  qed (use assms(2) in \<open>auto simp: setUserAnswer_def selectOption_def setShowHint_def
        submitQuiz_resolved_def submitQuiz_rejected_def\<close>)
qed

lemma trim_Nil [simp]: "trim [] = []"
  by (simp add: trim_def)

lemma handle_total:
  assumes "current_question s = Some cq"
  shows "\<exists>c'. handleAnswerSubmit quizId a r (s, w) = Inr c'"
proof -
  from assms obtain q qs where q: "quiz s = Some q" "quiz_questions q = Some qs"
    "currentIndex s < length qs"
    by (auto simp: current_question_def split: option.splits if_splits)
  show ?thesis
  proof (cases "trim (userAnswer s) = []")
    case True
    then show ?thesis by (simp add: handle_blank)
  next
    case nb: False
    show ?thesis
    proof (cases "currentIndex s + 1 < length qs")
      case True
      then show ?thesis using handle_next[OF nb q(1,2), of quizId a r w] by simp
    next
      case False
      with q(3) have "currentIndex s + 1 = length qs" by simp
      then show ?thesis using handle_last[OF nb q(1,2), of quizId a r w] by simp
    qed
  qed
qed

lemma ui_answer:
  assumes "status_of (s, w) = Answering" "current_question s = Some cq" "trim v \<noteq> []"
    and "(shown_options cq = None \<and> ev = Type v) \<or>
         (\<exists>opts idx. shown_options cq = Some opts \<and> idx < length opts \<and> ev = Click idx \<and>
            v = charAt0 (opts ! idx))"
  shows "\<exists>c'. recordAnswer quizId (v, a, r) (s, w) = Inr c' \<and>
              run quizId J [ev, Submit a r] (s, w) = Some c'"
proof -
  let ?s0 = "s\<lparr>userAnswer := v\<rparr>"
  have f1: "fire quizId J ev (s, w) = Some (?s0, w)"
    using assms(1,2,4) by (auto simp: fire_def selectOption_def setUserAnswer_def)
  from handle_total[of ?s0 cq quizId a r w] assms(2)
  obtain c' where h: "handleAnswerSubmit quizId a r (?s0, w) = Inr c'" by auto
  from assms(3) have ne: "userAnswer ?s0 \<noteq> []" by auto
  have f2: "fire quizId J (Submit a r) (?s0, w) = Some c'"
    using assms(1,2) h ne by (simp add: fire_def)
  show ?thesis using f1 f2 h by (simp add: recordAnswer_def setUserAnswer_def)
qed

section \<open>What is posted, and the storage\<close>








section \<open>The older page against the current one\<close>

lemma legacy_of_simps [simp]:
  "quiz (legacy_of s) = quiz s" "currentIndex (legacy_of s) = currentIndex s"
  "answers (legacy_of s) = answers s" "userAnswer (legacy_of s) = userAnswer s"
  "startTime (legacy_of s) = startTime s" "questionStartTime (legacy_of s) = questionStartTime s"
  "submitting (legacy_of s) = submitting s"
  by (simp_all add: legacy_of_def)

lemma legacy_of_updates [simp]:
  "legacy_of (s\<lparr>userAnswer := v\<rparr>) = (legacy_of s)\<lparr>userAnswer := v\<rparr>"
  "legacy_of (s\<lparr>showHint := b\<rparr>) = legacy_of s"
  "legacy_of (s\<lparr>submitting := b\<rparr>) = (legacy_of s)\<lparr>submitting := b\<rparr>"
  "legacy_of (s\<lparr>answers := as\<rparr>) = (legacy_of s)\<lparr>answers := as\<rparr>"
  "legacy_of (s\<lparr>currentIndex := i\<rparr>) = (legacy_of s)\<lparr>currentIndex := i\<rparr>"
  "legacy_of (s\<lparr>questionStartTime := t\<rparr>) = (legacy_of s)\<lparr>questionStartTime := t\<rparr>"
  "legacy_of (s\<lparr>quiz := qo\<rparr>) = (legacy_of s)\<lparr>quiz := qo\<rparr>"
  by (simp_all add: legacy_of_def)

lemma current_question_legacy [simp]: "current_question (legacy_of s) = current_question s"
  by (simp add: current_question_def split: option.splits)

lemma status_of_legacy [simp]: "status_of (legacy_config c) = status_of c"
  by (cases c) (simp add: status_of_def legacy_config_def)

lemma fst_legacy_config [simp]: "fst (legacy_config c) = legacy_of (fst c)"
  by (cases c) (simp add: legacy_config_def)

lemma handle_sim:
  "map_sum id legacy_config (handleAnswerSubmit quizId a r c) =
     legacy_handleAnswerSubmit quizId a r (legacy_config c)"
proof -
  obtain s w where c: "c = (s, w)" by (cases c)
  show ?thesis
  proof (cases "trim (userAnswer s) = []")
    case True
    then show ?thesis
      by (simp add: c handle_blank legacy_handleAnswerSubmit_def legacy_config_def)
  next
    case nb: False
    show ?thesis
    proof (cases "current_question s")
      case None
      with nb have "handleAnswerSubmit quizId a r (s, w) = Inl TypeError"
        by (simp add: handle_error)
      moreover from None nb have "legacy_handleAnswerSubmit quizId a r (legacy_of s, w) = Inl TypeError"
        by (auto simp: legacy_handleAnswerSubmit_def current_question_def
            split: option.splits if_splits)
      ultimately show ?thesis by (simp add: c legacy_config_def)
    next
      case (Some cq)
      then obtain q qs where q: "quiz s = Some q" "quiz_questions q = Some qs"
        "currentIndex s < length qs"
        by (auto simp: current_question_def split: option.splits if_splits)
      show ?thesis
      proof (cases "currentIndex s + 1 < length qs")
        case True
        with nb q show ?thesis
          by (simp add: c handle_next[OF nb q(1,2)] legacy_handleAnswerSubmit_def
              legacy_config_def new_answer_def Let_def)
      next
        case False
        with q(3) have l: "currentIndex s + 1 = length qs" by simp
        with nb q show ?thesis
          by (simp add: c handle_last[OF nb q(1,2)] legacy_handleAnswerSubmit_def
              legacy_submitQuiz_def legacy_config_def new_answer_def Let_def)
      qed
    qed
  qed
qed

lemma resolved_sim:
  "legacy_config (submitQuiz_resolved J res c) = legacy_submitQuiz_resolved J res (legacy_config c)"
  by (cases c) (simp add: legacy_config_def submitQuiz_resolved_def legacy_submitQuiz_resolved_def)

lemma rejected_sim:
  "legacy_config (submitQuiz_rejected c) = legacy_submitQuiz_rejected (legacy_config c)"
  by (cases c) (simp add: legacy_config_def submitQuiz_rejected_def legacy_submitQuiz_rejected_def)

lemma setUserAnswer_sim:
  "legacy_config (setUserAnswer v c) = legacy_setUserAnswer v (legacy_config c)"
  by (cases c) (simp add: legacy_config_def setUserAnswer_def legacy_setUserAnswer_def)

lemma fire_sim:
  assumes "ev \<noteq> Hint"
  shows "map_option legacy_config (fire quizId J ev c) = legacy_fire quizId J ev (legacy_config c)"
proof (cases "status_of c")
  case Answering
  show ?thesis
  proof (cases "current_question (fst c)")
    case None
    with Answering show ?thesis by (simp add: fire_def legacy_fire_def)
  next
    case (Some cq)
    show ?thesis
    proof (cases ev)
      case (Submit a r)
      show ?thesis
      proof (cases "handleAnswerSubmit quizId a r c")
        case (Inl e)
        with handle_sim[of quizId a r c]
        have "legacy_handleAnswerSubmit quizId a r (legacy_config c) = Inl e" by simp
        with Inl Answering Some Submit show ?thesis by (simp add: fire_def legacy_fire_def)
      next
        case (Inr c')
        with handle_sim[of quizId a r c]
        have "legacy_handleAnswerSubmit quizId a r (legacy_config c) = Inr (legacy_config c')"
          by simp
        with Inr Answering Some Submit show ?thesis by (simp add: fire_def legacy_fire_def)
      qed
    qed (use Answering Some assms in \<open>simp_all add: fire_def legacy_fire_def setUserAnswer_sim
          selectOption_def legacy_selectOption_def split: option.splits\<close>)
  qed
next
  case Submitting
  then show ?thesis
    by (cases ev) (simp_all add: fire_def legacy_fire_def resolved_sim rejected_sim)
qed (simp_all add: fire_def legacy_fire_def)

lemma run_sim:
  "Hint \<notin> set evs \<Longrightarrow>
   map_option legacy_config (run quizId J evs c) = legacy_run quizId J evs (legacy_config c)"
proof (induction evs arbitrary: c)
  case Nil
  then show ?case by simp
next
  case (Cons ev evs)
  then have ne: "ev \<noteq> Hint" and rest: "Hint \<notin> set evs" by auto
  show ?case
  proof (cases "fire quizId J ev c")
    case None
    with fire_sim[OF ne, of quizId J c] show ?thesis by simp
  next
    case (Some c1)
    with fire_sim[OF ne, of quizId J c]
    have "legacy_fire quizId J ev (legacy_config c) = Some (legacy_config c1)" by simp
    with Some Cons.IH[OF rest, of c1] show ?thesis by simp
  qed
qed

lemma hint_sim:
  assumes "fire quizId J Hint c = Some c'"
  shows "legacy_config c' = legacy_config c"
proof -
  from fire_cases[OF assms] have "c' = setShowHint True c" by auto
  then show ?thesis by (cases c) (simp add: setShowHint_def legacy_config_def)
qed

lemma run_sim_hints:
  "run quizId J evs c = Some c' \<Longrightarrow>
   legacy_run quizId J (removeAll Hint evs) (legacy_config c) = Some (legacy_config c')"
proof (induction evs arbitrary: c)
  case Nil
  then show ?case by simp
next
  case (Cons ev evs)
  then obtain c1 where f: "fire quizId J ev c = Some c1" and r: "run quizId J evs c1 = Some c'"
    by (auto split: option.splits)
  show ?case
  proof (cases "ev = Hint")
    case True
    with f have "legacy_config c1 = legacy_config c" by (simp add: hint_sim)
    with Cons.IH[OF r] True show ?thesis by simp
  next
    case False
    with fire_sim[OF False, of quizId J c] f
    have "legacy_fire quizId J ev (legacy_config c) = Some (legacy_config c1)" by simp
    with Cons.IH[OF r] False show ?thesis by simp
  qed
qed

lemma mount_sim:
  assumes "quiz (fst (mount P n1 n2 n3 store)) \<noteq> None \<or> store ''currentQuiz'' = None \<or>
           store ''currentQuiz'' = Some []"
  shows "legacy_mount P n1 n2 n3 store = Inr (legacy_config (mount P n1 n2 n3 store))"
  using assms
  by (auto simp: mount_def legacy_mount_def loadQuiz_def legacy_loadQuiz_def initial_state_def
      legacy_initial_state_def fresh_world_def legacy_config_def legacy_of_def
      split: option.splits parsed.splits if_splits)

lemma mount_rejects_empty_questions:
  assumes "store ''currentQuiz'' = Some txt" "txt \<noteq> []" "P txt = JsonQuiz q"
    and "quiz_questions q = None \<or> quiz_questions q = Some []"
  shows "mount P n1 n2 n3 store =
           (initial_state n1 n2,
            \<lparr>sessionStorage = store, toasts = [''Quiz has no questions''],
             navigations = [''/quiz/select''], posts = []\<rparr>)"
    and "status_of (mount P n1 n2 n3 store) = Terminated"
  using assms
  by (auto simp: mount_def loadQuiz_def fresh_world_def navigate_def toast_error_def status_of_def)

lemma legacy_of_hint_hidden [simp]: "legacy_of (hint_hidden l) = l"
  by (simp add: legacy_of_def hint_hidden_def)

lemma legacy_config_hint_hidden [simp]: "legacy_config (hint_hidden l, w) = (l, w)"
  by (simp add: legacy_config_def)

lemma legacy_fire_lift:
  assumes "legacy_fire quizId J ev (l, w) = Some c'"
  shows "\<exists>c. fire quizId J ev (hint_hidden l, w) = Some c \<and> legacy_config c = c'"
proof -
  have "ev \<noteq> Hint"
    using assms by (auto simp: legacy_fire_def split: status.splits option.splits)
  from fire_sim[OF this, of quizId J "(hint_hidden l, w)"] assms show ?thesis
    by auto
qed

lemma legacy_run_lift:
  "legacy_run quizId J evs (legacy_config c) = Some c' \<Longrightarrow>
   \<exists>c1. run quizId J evs c = Some c1 \<and> legacy_config c1 = c'"
proof (induction evs arbitrary: c)
  case Nil
  then show ?case by simp
next
  case (Cons ev evs)
  then obtain l1 where f: "legacy_fire quizId J ev (legacy_config c) = Some l1"
    and r: "legacy_run quizId J evs l1 = Some c'"
    by (auto split: option.splits)
  have ne: "ev \<noteq> Hint"
    using f by (auto simp: legacy_fire_def split: status.splits option.splits)
  from fire_sim[OF ne, of quizId J c] f obtain c2 where
    c2: "fire quizId J ev c = Some c2" "legacy_config c2 = l1" by auto
  from Cons.IH[of c2] r c2(2) obtain c1 where "run quizId J evs c2 = Some c1" "legacy_config c1 = c'"
    by auto
  with c2(1) show ?case by simp
qed

lemma legacy_mount_inv:
  assumes "legacy_mount P n1 n2 n3 store = Inr (l, w)" "quiz l = Some q"
    "quiz_questions q = Some qs" "qs \<noteq> []"
  shows "session_inv (hint_hidden l, w)" "currentIndex l = 0"
  using assms
  by (auto simp: legacy_mount_def legacy_loadQuiz_def legacy_initial_state_def fresh_world_def
      session_inv_def hint_hidden_def navigate_def toast_error_def
      split: option.splits parsed.splits if_splits)

lemma legacy_run_bound:
  assumes "legacy_mount P n1 n2 n3 store = Inr l0" "legacy_run quizId J evs l0 = Some (ls, lw)"
    "quiz ls = Some q" "quiz_questions q = Some qs" "qs \<noteq> []"
  shows "currentIndex ls < length qs \<and> currentIndex (fst l0) \<le> currentIndex ls"
proof -
  obtain l w where l0: "l0 = (l, w)" by (cases l0)
  let ?c = "(hint_hidden l, w)"
  from assms(2) l0 have "legacy_run quizId J evs (legacy_config ?c) = Some (ls, lw)" by simp
  from legacy_run_lift[OF this] obtain c1 where
    r: "run quizId J evs ?c = Some c1" and e: "legacy_config c1 = (ls, lw)" by auto
  obtain s1 w1 where c1: "c1 = (s1, w1)" by (cases c1)
  from e c1 have ls: "ls = legacy_of s1" by (simp add: legacy_config_def)
  from run_index[OF r] c1 have qz: "quiz s1 = quiz (hint_hidden l)"
    and mono: "currentIndex (hint_hidden l) \<le> currentIndex s1" by simp_all
  from qz ls assms(3) have ql: "quiz l = Some q" by (simp add: hint_hidden_def)
  from legacy_mount_inv(1)[OF assms(1)[unfolded l0] ql assms(4,5)]
  have "session_inv c1" using inv_run r by blast
  with c1 ls assms(3,4) have "currentIndex ls < length qs"
    by (auto simp: session_inv_def split: option.splits)
  moreover from mono ls l0 have "currentIndex (fst l0) \<le> currentIndex ls"
    by (simp add: hint_hidden_def)
  ultimately show ?thesis by simp
qed

lemma legacy_fire_index:
  assumes "legacy_fire quizId J ev l = Some l'"
  shows "currentIndex (fst l') = currentIndex (fst l) \<or>
         currentIndex (fst l') = currentIndex (fst l) + 1"
proof -
  obtain s w where l: "l = (s, w)" by (cases l)
  from legacy_fire_lift[OF assms[unfolded l]] obtain c where
    f: "fire quizId J ev (hint_hidden s, w) = Some c" and e: "legacy_config c = l'" by auto
  from fire_index[OF f] e l show ?thesis
    by (auto simp: hint_hidden_def)
qed


lemma duo_legacy_mount:
  "legacy_mount duo_parse 1000 1000 1000 duo_store = Inr (legacy_of duo_state0, duo_world0)"
proof -
  have "quiz (fst (mount duo_parse 1000 1000 1000 duo_store)) \<noteq> None"
    by (simp add: duo_mount) (simp add: duo_defs)
  then show ?thesis using mount_sim[of duo_parse 1000 1000 1000 duo_store]
    by (simp add: duo_mount legacy_config_def)
qed

lemma duo_legacy_step1:
  "legacy_run ''quiz-2'' J [Click 0, Submit 3000 3001] (legacy_of duo_state0, duo_world0) =
     Some (legacy_of duo_state1, duo_world0)"
proof -
  have "Hint \<notin> set [Click 0, Submit 3000 3001]" by simp
  from run_sim[OF this, of "''quiz-2''" J "(duo_state0, duo_world0)"] show ?thesis
    by (simp add: duo_step1 legacy_config_def del: run.simps legacy_run.simps)
qed

section \<open>Clicking an option\<close>

lemma trim_single: "\<not> is_space ch \<Longrightarrow> trim [ch] = [ch]"
  by (simp add: trim_def)

lemma click_label_then_submit:
  assumes "status_of (s, w) = Answering" "current_question s = Some cq"
    and "shown_options cq = Some opts" "idx < length opts"
    and "opts ! idx = ch # rest" "\<not> is_space ch"
  shows "\<exists>s' w' ad. run quizId J [Click idx, Submit a r] (s, w) = Some (s', w') \<and>
           answers s' = answers s @ [ad] \<and> question_id ad = q_id cq \<and>
           user_answer ad = [ch] \<and> is_correct ad = False"
proof -
  have c0: "charAt0 (opts ! idx) = [ch]" using assms(5) by (simp add: charAt0_def)
  have tr: "trim [ch] \<noteq> []" using assms(6) by (simp add: trim_single)
  have "(\<exists>opts' idx'. shown_options cq = Some opts' \<and> idx' < length opts' \<and>
           Click idx = Click idx' \<and> [ch] = charAt0 (opts' ! idx'))"
    using assms(3,4) c0 by (intro exI[of _ opts] exI[of _ idx]) simp
  with ui_answer[OF assms(1,2) tr, of "Click idx" quizId a r J]
  obtain c' where u: "recordAnswer quizId ([ch], a, r) (s, w) = Inr c'"
    "run quizId J [Click idx, Submit a r] (s, w) = Some c'" by blast
  obtain s' w' where c': "c' = (s', w')" by (cases c')
  let ?s0 = "s\<lparr>userAnswer := [ch]\<rparr>"
  from u(1) c' have h: "handleAnswerSubmit quizId a r (?s0, w) = Inr (s', w')"
    by (simp add: recordAnswer_def setUserAnswer_def)
  have nb: "trim (userAnswer ?s0) \<noteq> []" using tr by simp
  from handle_accepts[OF nb h] obtain q qs where
    q: "quiz ?s0 = Some q" "quiz_questions q = Some qs" "currentIndex ?s0 < length qs"
    "answers s' = answers ?s0 @ [new_answer a ?s0 qs]" by blast
  from assms(2) q(1,2,3) have cq: "cq = qs ! currentIndex s"
    by (simp add: current_question_def)
  show ?thesis
    using u(2) c' q(4) cq
    by (intro exI[of _ s'] exI[of _ w'] exI[of _ "new_answer a ?s0 qs"])
       (simp add: new_answer_def)
qed

lemma to_double_1 [simp]: "to_double 1 = 1"
  using to_double_of_int[of 1] by simp



section \<open>The index on the current page, and on the older page for a quiz with questions\<close>

text \<open>
  With a quiz loaded, \<^verbatim>\<open>currentIndex\<close> is below the number of questions in every state the
  current page reaches from mounting. Over any run of events the quiz stays the same and the
  index does not decrease; one event leaves the index or adds one to it; and an accepted
  answer to a question that is not the last adds exactly one. On the older page the same
  holds for every quiz that has a question.
\<close>

lemma currentIndex_bounded_and_monotone:
  "(run quizId J evs (mount P n1 n2 n3 store) = Some (s, w) \<and> quiz s = Some q
      \<longrightarrow> (\<exists>qs. quiz_questions q = Some qs \<and> currentIndex s < length qs)) \<and>
   (run quizId J evs c = Some c'
      \<longrightarrow> quiz (fst c') = quiz (fst c) \<and> currentIndex (fst c) \<le> currentIndex (fst c')) \<and>
   (fire quizId J ev c1 = Some c1'
      \<longrightarrow> currentIndex (fst c1') = currentIndex (fst c1) \<or>
          currentIndex (fst c1') = currentIndex (fst c1) + 1) \<and>
   (trim (userAnswer s0) \<noteq> [] \<and> quiz s0 = Some q0 \<and> quiz_questions q0 = Some qs0 \<and>
    currentIndex s0 + 1 < length qs0
      \<longrightarrow> (\<exists>s'. handleAnswerSubmit quizId a r (s0, w0) = Inr (s', w0) \<and>
                currentIndex s' = currentIndex s0 + 1)) \<and>
   (legacy_mount P n1 n2 n3 store = Inr l0 \<and> legacy_run quizId J evs l0 = Some (ls, lw) \<and>
    quiz ls = Some ql \<and> quiz_questions ql = Some qsl \<and> qsl \<noteq> []
      \<longrightarrow> currentIndex ls < length qsl \<and> currentIndex (fst l0) \<le> currentIndex ls) \<and>
   (legacy_fire quizId J ev l1 = Some l1'
      \<longrightarrow> currentIndex (fst l1') = currentIndex (fst l1) \<or>
          currentIndex (fst l1') = currentIndex (fst l1) + 1)"
proof (intro conjI impI)
  assume a: "run quizId J evs (mount P n1 n2 n3 store) = Some (s, w) \<and> quiz s = Some q"
  then have "session_inv (s, w)" using inv_run[OF inv_mount] by blast
  with a show "\<exists>qs. quiz_questions q = Some qs \<and> currentIndex s < length qs"
    by (auto simp: session_inv_def split: option.splits)
next
  assume "run quizId J evs c = Some c'"
  then show "quiz (fst c') = quiz (fst c)" "currentIndex (fst c) \<le> currentIndex (fst c')"
    using run_index by blast+
next
  assume "fire quizId J ev c1 = Some c1'"
  then show "currentIndex (fst c1') = currentIndex (fst c1) \<or>
          currentIndex (fst c1') = currentIndex (fst c1) + 1"
    using fire_index by blast
next
  assume "trim (userAnswer s0) \<noteq> [] \<and> quiz s0 = Some q0 \<and> quiz_questions q0 = Some qs0 \<and>
    currentIndex s0 + 1 < length qs0"
  then show "\<exists>s'. handleAnswerSubmit quizId a r (s0, w0) = Inr (s', w0) \<and>
                currentIndex s' = currentIndex s0 + 1"
    by (simp add: handle_next)
next
  assume a: "legacy_mount P n1 n2 n3 store = Inr l0 \<and> legacy_run quizId J evs l0 = Some (ls, lw) \<and>
    quiz ls = Some ql \<and> quiz_questions ql = Some qsl \<and> qsl \<noteq> []"
  then have "currentIndex ls < length qsl \<and> currentIndex (fst l0) \<le> currentIndex ls"
    by (intro legacy_run_bound[of P n1 n2 n3 store l0 quizId J evs ls lw ql qsl]) simp_all
  then show "currentIndex ls < length qsl" "currentIndex (fst l0) \<le> currentIndex ls"
    by simp_all
next
  assume "legacy_fire quizId J ev l1 = Some l1'"
  then show "currentIndex (fst l1') = currentIndex (fst l1) \<or>
          currentIndex (fst l1') = currentIndex (fst l1) + 1"
    using legacy_fire_index by blast
qed

section \<open>Claims\<close>

text \<open>
  C6. An input that trims to the empty string is rejected: \<^verbatim>\<open>recordAnswer\<close> leaves
  \<^verbatim>\<open>currentIndex\<close>, \<^verbatim>\<open>answers\<close>, the status, the posted requests, the navigations and the
  storage as they were and raises the notice "Please provide an answer"; the only cell that
  differs afterwards is the input cell \<^verbatim>\<open>userAnswer\<close>, which holds the blank input. The
  handler itself, run on cells whose input is blank, returns the very same cells.
\<close>

theorem blank_answer_is_rejected:
  assumes "trim rawInput = []"
  shows "(\<exists>s' w'. recordAnswer quizId (rawInput, now1, now2) (s, w) = Inr (s', w') \<and>
            s' = s\<lparr>userAnswer := rawInput\<rparr> \<and>
            currentIndex s' = currentIndex s \<and> answers s' = answers s \<and>
            status_of (s', w') = status_of (s, w) \<and>
            posts w' = posts w \<and> navigations w' = navigations w \<and>
            sessionStorage w' = sessionStorage w \<and>
            toasts w' = toasts w @ [''Please provide an answer'']) \<and>
         handleAnswerSubmit quizId now1 now2 (s\<lparr>userAnswer := rawInput\<rparr>, w) =
           Inr (s\<lparr>userAnswer := rawInput\<rparr>, toast_error ''Please provide an answer'' w)"
proof -
  have "handleAnswerSubmit quizId now1 now2 (s\<lparr>userAnswer := rawInput\<rparr>, w) =
          Inr (s\<lparr>userAnswer := rawInput\<rparr>, toast_error ''Please provide an answer'' w)"
    using assms by (simp add: handle_blank)
  then show ?thesis
    by (simp add: recordAnswer_def setUserAnswer_def) (simp add: toast_error_def)
qed

theorem blank_answer_is_rejected_witness:
  "trim ''   '' = [] \<and>
   handleAnswerSubmit ''quiz-1'' 5000 5001 (demo_state0\<lparr>userAnswer := ''   ''\<rparr>, demo_world0) =
     Inr (demo_state0\<lparr>userAnswer := ''   ''\<rparr>,
          toast_error ''Please provide an answer'' demo_world0)"
proof -
  have h: "trim ''   '' = []" by (simp add: trim_def is_space_def)
  from blank_answer_is_rejected[OF h, of "''quiz-1''" 5000 5001 demo_state0 demo_world0] h
  show ?thesis by simp
qed

text \<open>
  C7. When the posted request returns, \<^verbatim>\<open>currentQuiz\<close> is removed from the storage,
  \<^verbatim>\<open>quizResult\<close> holds the serialisation of the response as it came, every other key of the
  storage keeps its value, and \<^verbatim>\<open>navigate\<close> is called with the results path of the returned
  identifier. No notice is raised, no request is posted and no cell of the page changes.
  This is the step the page takes on \<open>Resolve\<close> while it is submitting.
\<close>

theorem successful_submission_effects:
  "fst (submitQuiz_resolved JSON_stringify res (s, w)) = s \<and>
   sessionStorage (snd (submitQuiz_resolved JSON_stringify res (s, w))) ''currentQuiz'' = None \<and>
   sessionStorage (snd (submitQuiz_resolved JSON_stringify res (s, w))) ''quizResult'' =
     Some (JSON_stringify res) \<and>
   (\<forall>k. k \<noteq> ''currentQuiz'' \<and> k \<noteq> ''quizResult'' \<longrightarrow>
      sessionStorage (snd (submitQuiz_resolved JSON_stringify res (s, w))) k = sessionStorage w k) \<and>
   navigations (snd (submitQuiz_resolved JSON_stringify res (s, w))) =
     navigations w @ [''/results/'' @ result_id res] \<and>
   toasts (snd (submitQuiz_resolved JSON_stringify res (s, w))) = toasts w \<and>
   posts (snd (submitQuiz_resolved JSON_stringify res (s, w))) = posts w \<and>
   (status_of (s, w) = Submitting \<longrightarrow>
      fire quizId JSON_stringify (Resolve res) (s, w) =
        Some (submitQuiz_resolved JSON_stringify res (s, w)))"
  by (simp add: submitQuiz_resolved_def navigate_def fire_def)

theorem successful_submission_effects_witness:
  "status_of (demo_state1, demo_world1) = Submitting \<and>
   fire ''quiz-1'' demo_stringify (Resolve demo_result) (demo_state1, demo_world1) =
     Some (submitQuiz_resolved demo_stringify demo_result (demo_state1, demo_world1)) \<and>
   ''theme'' \<noteq> ''currentQuiz'' \<and> ''theme'' \<noteq> ''quizResult'' \<and>
   sessionStorage (snd (submitQuiz_resolved demo_stringify demo_result (demo_state1, demo_world1)))
     ''theme'' = Some ''dark'' \<and>
   sessionStorage (snd (submitQuiz_resolved demo_stringify demo_result (demo_state1, demo_world1)))
     ''currentQuiz'' = None \<and>
   sessionStorage (snd (submitQuiz_resolved demo_stringify demo_result (demo_state1, demo_world1)))
     ''quizResult'' = Some ''r9:score 100'' \<and>
   navigations (snd (submitQuiz_resolved demo_stringify demo_result (demo_state1, demo_world1))) =
     [''/results/r9'']"
  using successful_submission_effects[of demo_stringify demo_result demo_state1 demo_world1 "''quiz-1''"]
    demo_status1
  by (simp add: demo_defs)

text \<open>
  C1, as amended. In a session that is answering and has not yet posted a submission, the
  answers are as many as the current index: after \<open>k\<close> accepted answers, with \<open>k\<close> below the
  number of questions, both are \<open>k\<close> and the session is still answering. (Once a submission
  has been posted and has failed, the session is answering again with one answer more than
  the index; the counterexample below shows it.)
\<close>

theorem answers_match_index_before_submission:
  "(run quizId J evs (mount P n1 n2 n3 store) = Some (s, w) \<and>
      status_of (s, w) = Answering \<and> posts w = []
      \<longrightarrow> length (answers s) = currentIndex s) \<and>
   (quiz (fst (mount P n1 n2 n3 store)) = Some q \<and> quiz_questions q = Some qs \<and>
      (\<forall>i \<in> set inputs. trim (fst i) \<noteq> []) \<and> length inputs < length qs
      \<longrightarrow> (\<exists>s' w'. recordAnswers quizId inputs (mount P n1 n2 n3 store) = Inr (s', w') \<and>
             status_of (s', w') = Answering \<and> posts w' = [] \<and>
             length (answers s') = length inputs \<and> currentIndex s' = length inputs))"
proof (intro conjI impI)
  assume a: "run quizId J evs (mount P n1 n2 n3 store) = Some (s, w) \<and>
      status_of (s, w) = Answering \<and> posts w = []"
  then have "session_inv (s, w)" using inv_run[OF inv_mount] by blast
  with a show "length (answers s) = currentIndex s"
    by (auto simp: session_inv_def status_of_def split: option.splits if_splits)
next
  assume a: "quiz (fst (mount P n1 n2 n3 store)) = Some q \<and> quiz_questions q = Some qs \<and>
      (\<forall>i \<in> set inputs. trim (fst i) \<noteq> []) \<and> length inputs < length qs"
  let ?s0 = "initial_state n1 n2\<lparr>quiz := Some q, questionStartTime := n3\<rparr>"
  have m: "mount P n1 n2 n3 store = (?s0, fresh_world store)"
    using a mount_loaded(1) by blast
  have ne: "qs \<noteq> []" using a by auto
  show "\<exists>s' w'. recordAnswers quizId inputs (mount P n1 n2 n3 store) = Inr (s', w') \<and>
             status_of (s', w') = Answering \<and> posts w' = [] \<and>
             length (answers s') = length inputs \<and> currentIndex s' = length inputs"
  proof (cases "inputs = []")
    case True
    with a m ne show ?thesis
      by (simp add: status_loaded) (simp add: initial_state_def fresh_world_def)
  next
    case False
    have "\<exists>s' w'. recordAnswers quizId inputs (?s0, fresh_world store) = Inr (s', w') \<and>
           quiz s' = quiz ?s0 \<and>
           answers s' = answers ?s0 @ recorded qs (currentIndex ?s0) (questionStartTime ?s0) inputs \<and>
           navigations w' = navigations (fresh_world store) \<and> toasts w' = toasts (fresh_world store) \<and>
           sessionStorage w' = sessionStorage (fresh_world store) \<and>
           (if currentIndex ?s0 + length inputs < length qs
            then currentIndex s' = currentIndex ?s0 + length inputs \<and>
                 submitting s' = submitting ?s0 \<and> posts w' = posts (fresh_world store)
            else currentIndex s' + 1 = length qs \<and> submitting s' \<and>
                 posts w' = posts (fresh_world store) @ [\<lparr>quiz_id = quizId, payload_answers = answers s'\<rparr>])"
      using a False by (intro recordAnswers_straight) (auto simp: initial_state_def)
    then obtain s' w' where r: "recordAnswers quizId inputs (?s0, fresh_world store) = Inr (s', w')"
      "quiz s' = Some q" "length (answers s') = length inputs" "navigations w' = []"
      "currentIndex s' = length inputs" "\<not> submitting s'" "posts w' = []"
      using a by (auto simp: initial_state_def fresh_world_def)
    have "status_of (s', w') = Answering"
      using r a by (simp add: status_of_def current_question_def)
    with r m show ?thesis by simp
  qed
qed

theorem answers_match_index_before_submission_witness:
  "run ''quiz-2'' demo_stringify [Click 0, Submit 3000 3001] (mount duo_parse 1000 1000 1000 duo_store)
     = Some (duo_state1, duo_world0) \<and>
   status_of (duo_state1, duo_world0) = Answering \<and> posts duo_world0 = [] \<and>
   length (answers duo_state1) = currentIndex duo_state1 \<and>
   quiz (fst (mount duo_parse 1000 1000 1000 duo_store)) = Some duo_quiz \<and>
   quiz_questions duo_quiz = Some [duo_q1, duo_q2] \<and>
   trim (fst (''A'', 3000::int, 3001::int)) \<noteq> [] \<and>
   length [(''A'', 3000::int, 3001::int)] < length [duo_q1, duo_q2] \<and>
   (\<exists>s' w'. recordAnswers ''quiz-2'' [(''A'', 3000, 3001)] (mount duo_parse 1000 1000 1000 duo_store)
               = Inr (s', w') \<and>
      status_of (s', w') = Answering \<and> posts w' = [] \<and>
      length (answers s') = 1 \<and> currentIndex s' = 1)"
proof -
  have r: "run ''quiz-2'' demo_stringify [Click 0, Submit 3000 3001]
             (mount duo_parse 1000 1000 1000 duo_store) = Some (duo_state1, duo_world0)"
    by (simp only: duo_mount duo_step1)
  have p: "posts duo_world0 = []" by (simp add: duo_defs)
  have q: "quiz (fst (mount duo_parse 1000 1000 1000 duo_store)) = Some duo_quiz"
    by (simp add: duo_mount) (simp add: duo_defs)
  have qs: "quiz_questions duo_quiz = Some [duo_q1, duo_q2]" by (simp add: duo_defs)
  from answers_match_index_before_submission[of "''quiz-2''" demo_stringify
      "[Click 0, Submit 3000 3001]" duo_parse 1000 1000 1000 duo_store duo_state1 duo_world0
      duo_quiz "[duo_q1, duo_q2]" "[(''A'', 3000, 3001)]"] r p q qs duo_status(2)
  show ?thesis by simp
qed

theorem answering_after_failed_submission_counterexample:
  "run ''quiz-1'' demo_stringify [Type ''7'', Submit 4000 4001, Reject]
     (mount demo_parse 1000 1000 1000 demo_store) = Some (demo_state2, demo_world2) \<and>
   status_of (demo_state2, demo_world2) = Answering \<and>
   length (answers demo_state2) = 1 \<and> currentIndex demo_state2 = 0 \<and>
   length (answers demo_state2) \<noteq> currentIndex demo_state2"
proof -
  have r2: "run ''quiz-1'' demo_stringify [Reject] (demo_state1, demo_world1) =
              Some (demo_state2, demo_world2)"
    by (simp add: demo_step2)
  have "run ''quiz-1'' demo_stringify ([Type ''7'', Submit 4000 4001] @ [Reject])
          (demo_state0, demo_world0) = Some (demo_state2, demo_world2)"
    unfolding run_append demo_step1 by (simp only: option.case r2)
  then show ?thesis
    by (simp add: demo_mount demo_status2) (simp add: demo_defs)
qed




text \<open>
  C5. On the older page the claim fails. With a stored quiz whose question list is empty, its
  loading effect stores the quiz and raises no notice and no navigation; rendering then
  throws a TypeError on the missing current question. The current page, on the same
  storage, raises "Quiz has no questions", navigates to the quiz selection and keeps
  \<^verbatim>\<open>quiz\<close> unset, as the claim says.
\<close>

theorem legacy_load_accepts_empty_quiz:
  "legacy_mount demo_empty_parse 1000 1000 1000 demo_empty_store =
     Inr (\<lparr>quiz = Some demo_empty_quiz, currentIndex = 0, answers = [], userAnswer = [],
           startTime = 1000, questionStartTime = 1000, submitting = False\<rparr>,
          \<lparr>sessionStorage = demo_empty_store, toasts = [], navigations = [], posts = []\<rparr>) \<and>
   legacy_render
     \<lparr>quiz = Some demo_empty_quiz, currentIndex = 0, answers = [], userAnswer = [],
      startTime = 1000, questionStartTime = 1000, submitting = False\<rparr> = Inl TypeError \<and>
   mount demo_empty_parse 1000 1000 1000 demo_empty_store =
     (initial_state 1000 1000,
      \<lparr>sessionStorage = demo_empty_store, toasts = [''Quiz has no questions''],
       navigations = [''/quiz/select''], posts = []\<rparr>)"
  by (simp add: legacy_mount_def legacy_loadQuiz_def legacy_initial_state_def fresh_world_def
      legacy_render_def current_question_def mount_def loadQuiz_def navigate_def toast_error_def
      demo_empty_store_def demo_empty_parse_def demo_empty_quiz_def)

text \<open>
  C10. The older page does what the current page does, on the cells they share and on the
  whole outside world (storage, notices, navigations, posted requests): for each handler,
  for any run of events without the hint button, and, with the hint clicks dropped, for any
  run at all; a click on the hint button changes nothing the older page has. Mounting agrees
  whenever the current page loads a quiz, and when nothing is stored.
\<close>

theorem legacy_page_equivalent:
  "map_sum id legacy_config (handleAnswerSubmit quizId a r c) =
     legacy_handleAnswerSubmit quizId a r (legacy_config c) \<and>
   legacy_config (submitQuiz_resolved J res c) =
     legacy_submitQuiz_resolved J res (legacy_config c) \<and>
   legacy_config (submitQuiz_rejected c) = legacy_submitQuiz_rejected (legacy_config c) \<and>
   (Hint \<notin> set evs \<longrightarrow>
      map_option legacy_config (run quizId J evs c) = legacy_run quizId J evs (legacy_config c)) \<and>
   (run quizId J evs1 c1 = Some c1' \<longrightarrow>
      legacy_run quizId J (removeAll Hint evs1) (legacy_config c1) = Some (legacy_config c1')) \<and>
   (fire quizId J Hint c2 = Some c2' \<longrightarrow> legacy_config c2' = legacy_config c2) \<and>
   (quiz (fst (mount P n1 n2 n3 store)) \<noteq> None \<or> store ''currentQuiz'' = None \<or>
    store ''currentQuiz'' = Some []
      \<longrightarrow> legacy_mount P n1 n2 n3 store = Inr (legacy_config (mount P n1 n2 n3 store)))"
  using handle_sim resolved_sim rejected_sim run_sim run_sim_hints hint_sim mount_sim
  by (intro conjI impI) blast+

theorem legacy_page_equivalent_witness:
  "Hint \<notin> set [Click 0, Submit 3000 3001, Type ''42'', Submit 7001 7002] \<and>
   legacy_mount duo_parse 1000 1000 1000 duo_store = Inr (legacy_config (duo_state0, duo_world0)) \<and>
   legacy_run ''quiz-2'' demo_stringify [Click 0, Submit 3000 3001, Type ''42'', Submit 7001 7002]
     (legacy_config (duo_state0, duo_world0)) = Some (legacy_config (duo_state2, duo_world2)) \<and>
   legacy_config (duo_state2, duo_world2) =
     (\<lparr>quiz = Some duo_quiz, currentIndex = 1, answers = [duo_answer1, duo_answer2],
       userAnswer = [], startTime = 1000, questionStartTime = 3001, submitting = True\<rparr>,
      duo_world2)"
proof -
  have r: "run ''quiz-2'' demo_stringify ([Click 0, Submit 3000 3001] @ [Type ''42'', Submit 7001 7002])
             (duo_state0, duo_world0) = Some (duo_state2, duo_world2)"
    unfolding run_append duo_step1 by (simp only: option.case duo_step2)
  have h: "Hint \<notin> set [Click 0, Submit 3000 3001, Type ''42'', Submit 7001 7002]" by simp
  have q: "quiz (fst (mount duo_parse 1000 1000 1000 duo_store)) \<noteq> None"
    by (simp add: duo_mount) (simp add: duo_defs)
  note T = legacy_page_equivalent[of "''quiz-2''" 0 0 "(duo_state0, duo_world0)" demo_stringify
      demo_result "[Click 0, Submit 3000 3001, Type ''42'', Submit 7001 7002]"
      "[]" "(duo_state0, duo_world0)" "(duo_state0, duo_world0)"
      "(duo_state0, duo_world0)" "(duo_state0, duo_world0)"
      duo_parse 1000 1000 1000 duo_store]
  from T h r have "legacy_run ''quiz-2'' demo_stringify
     [Click 0, Submit 3000 3001, Type ''42'', Submit 7001 7002]
     (legacy_config (duo_state0, duo_world0)) = Some (legacy_config (duo_state2, duo_world2))"
    by (simp del: run.simps legacy_run.simps)
  moreover from T q have "legacy_mount duo_parse 1000 1000 1000 duo_store =
      Inr (legacy_config (duo_state0, duo_world0))"
    by (simp add: duo_mount)
  moreover have "legacy_config (duo_state2, duo_world2) =
     (\<lparr>quiz = Some duo_quiz, currentIndex = 1, answers = [duo_answer1, duo_answer2],
       userAnswer = [], startTime = 1000, questionStartTime = 3001, submitting = True\<rparr>,
      duo_world2)"
    by (simp add: legacy_config_def legacy_of_def duo_state2_def)
  ultimately show ?thesis using h by (intro conjI)
qed


text \<open>
  C3. A quiz of a multiple-choice question with the options "A) x" and "B) y" followed by a
  question with a text input is loaded. Clicking the first option and submitting, then
  typing 42 and submitting, always succeeds and leaves two records, for the first question
  with answer "A" and for the second with answer "42", in this order and both marked not
  correct; exactly one request has been posted and it carries these two records. In
  general, clicking an option of a multiple-choice question and submitting records, for
  the current question, the one-character text made of the first character of that option
  (provided the character is not white space, which the handler rejects).
\<close>

theorem two_question_quiz_scenario:
  "(store ''currentQuiz'' = Some txt \<and> txt \<noteq> [] \<and> P txt = JsonQuiz q \<and>
    quiz_questions q = Some [Q1, Q2] \<and> q_type Q1 = ''mcq'' \<and>
    q_options Q1 = Some [''A) x'', ''B) y''] \<and> shown_options Q2 = None
      \<longrightarrow> (\<exists>s' w'. run quizId J [Click 0, Submit a1 r1, Type ''42'', Submit a2 r2]
                        (mount P n1 n2 n3 store) = Some (s', w') \<and>
             map question_id (answers s') = [q_id Q1, q_id Q2] \<and>
             map user_answer (answers s') = [''A'', ''42''] \<and>
             map is_correct (answers s') = [False, False] \<and>
             posts w' = [\<lparr>quiz_id = quizId, payload_answers = answers s'\<rparr>] \<and>
             status_of (s', w') = Submitting)) \<and>
   (status_of (s, w) = Answering \<and> current_question s = Some cq \<and>
    shown_options cq = Some opts \<and> idx < length opts \<and> opts ! idx = ch # rest \<and>
    \<not> is_space ch
      \<longrightarrow> (\<exists>s' w' ad. run quizId J [Click idx, Submit a r] (s, w) = Some (s', w') \<and>
             answers s' = answers s @ [ad] \<and> question_id ad = q_id cq \<and>
             user_answer ad = [ch] \<and> is_correct ad = False))"
proof (intro conjI impI)
  assume a: "store ''currentQuiz'' = Some txt \<and> txt \<noteq> [] \<and> P txt = JsonQuiz q \<and>
    quiz_questions q = Some [Q1, Q2] \<and> q_type Q1 = ''mcq'' \<and>
    q_options Q1 = Some [''A) x'', ''B) y''] \<and> shown_options Q2 = None"
  then have st: "store ''currentQuiz'' = Some txt" "txt \<noteq> []" "P txt = JsonQuiz q"
    and qs: "quiz_questions q = Some [Q1, Q2]"
    and sh1: "shown_options Q1 = Some [''A) x'', ''B) y'']" and sh2: "shown_options Q2 = None"
    by (simp_all add: shown_options_def)
  let ?c0 = "mount P n1 n2 n3 store"
  let ?i1 = "(''A'', a1, r1)" and ?i2 = "(''42'', a2, r2)"
  have l: "quiz (fst ?c0) = Some q"
    using st qs by (simp add: mount_def loadQuiz_def initial_state_def fresh_world_def)
  have nb1: "\<forall>i \<in> set [?i1]. trim (fst i) \<noteq> []" and nb2: "\<forall>i \<in> set [?i1, ?i2]. trim (fst i) \<noteq> []"
    by (simp_all add: trim_def is_space_def)
  have tr: "trim ''A'' \<noteq> []" "trim ''42'' \<noteq> []"
    by (simp_all add: trim_def is_space_def)
  \<comment> \<open>the state between the two answers\<close>
  from recordAnswers_from_mount[OF l qs nb1, of quizId]
  obtain s1 w1 where r1: "recordAnswers quizId [?i1] ?c0 = Inr (s1, w1)"
    and p1: "quiz s1 = Some q" "navigations w1 = []" "currentIndex s1 = 1" "\<not> submitting s1"
    by auto
  have a1: "status_of (s1, w1) = Answering" "current_question s1 = Some Q2"
    using p1 qs by (simp_all add: status_of_def current_question_def)
  \<comment> \<open>the state after both\<close>
  from recordAnswers_from_mount[OF l qs nb2, of quizId]
  obtain s2 w2 where r2: "recordAnswers quizId [?i1, ?i2] ?c0 = Inr (s2, w2)"
    and p2: "answers s2 = recorded [Q1, Q2] 0 n3 [?i1, ?i2]" "navigations w2 = []"
      "submitting s2" "posts w2 = [\<lparr>quiz_id = quizId, payload_answers = answers s2\<rparr>]"
    by auto
  \<comment> \<open>the state at mount\<close>
  obtain s0 w0 where c0: "?c0 = (s0, w0)" by (cases ?c0)
  have a0: "status_of (s0, w0) = Answering" "current_question s0 = Some Q1"
    using c0 st qs
    by (auto simp: mount_def loadQuiz_def initial_state_def fresh_world_def status_of_def
        current_question_def)
  \<comment> \<open>the events make the two calls\<close>
  have "(\<exists>opts idx. shown_options Q1 = Some opts \<and> idx < length opts \<and> Click 0 = Click idx \<and>
            ''A'' = charAt0 (opts ! idx))"
    using sh1 by (intro exI[of _ "[''A) x'', ''B) y'']"] exI[of _ 0]) (simp add: charAt0_def)
  with ui_answer[OF a0 tr(1), of "Click 0" quizId a1 r1 J]
  obtain c1 where u1: "recordAnswer quizId ?i1 (s0, w0) = Inr c1"
    "run quizId J [Click 0, Submit a1 r1] (s0, w0) = Some c1" by blast
  from u1(1) r1 c0 have c1: "c1 = (s1, w1)" by simp
  from ui_answer[OF a1 tr(2), of "Type ''42''" quizId a2 r2 J] sh2
  obtain c2 where u2: "recordAnswer quizId ?i2 (s1, w1) = Inr c2"
    "run quizId J [Type ''42'', Submit a2 r2] (s1, w1) = Some c2" by blast
  from u1(1) u2(1) r2 c0 c1 have c2: "c2 = (s2, w2)" by simp
  have "run quizId J ([Click 0, Submit a1 r1] @ [Type ''42'', Submit a2 r2]) ?c0 = Some (s2, w2)"
    unfolding run_append c0 u1(2) c1 using u2(2) c2 by (simp only: option.case)
  then have r: "run quizId J [Click 0, Submit a1 r1, Type ''42'', Submit a2 r2] ?c0 = Some (s2, w2)"
    by simp
  have "status_of (s2, w2) = Submitting"
    using p2 by (simp add: status_of_def)
  with r p2 show "\<exists>s' w'. run quizId J [Click 0, Submit a1 r1, Type ''42'', Submit a2 r2]
                        (mount P n1 n2 n3 store) = Some (s', w') \<and>
             map question_id (answers s') = [q_id Q1, q_id Q2] \<and>
             map user_answer (answers s') = [''A'', ''42''] \<and>
             map is_correct (answers s') = [False, False] \<and>
             posts w' = [\<lparr>quiz_id = quizId, payload_answers = answers s'\<rparr>] \<and>
             status_of (s', w') = Submitting"
    by (intro exI[of _ s2] exI[of _ w2]) simp
next
  assume "status_of (s, w) = Answering \<and> current_question s = Some cq \<and>
    shown_options cq = Some opts \<and> idx < length opts \<and> opts ! idx = ch # rest \<and>
    \<not> is_space ch"
  then show "\<exists>s' w' ad. run quizId J [Click idx, Submit a r] (s, w) = Some (s', w') \<and>
             answers s' = answers s @ [ad] \<and> question_id ad = q_id cq \<and>
             user_answer ad = [ch] \<and> is_correct ad = False"
    using click_label_then_submit by blast
qed

theorem two_question_quiz_scenario_witness:
  "(duo_store ''currentQuiz'' = Some ''two-question quiz'' \<and> ''two-question quiz'' \<noteq> [] \<and>
    duo_parse ''two-question quiz'' = JsonQuiz duo_quiz \<and>
    quiz_questions duo_quiz = Some [duo_q1, duo_q2] \<and> q_type duo_q1 = ''mcq'' \<and>
    q_options duo_q1 = Some [''A) x'', ''B) y''] \<and> shown_options duo_q2 = None) \<and>
   (\<exists>s' w'. run ''quiz-2'' demo_stringify [Click 0, Submit 3000 3001, Type ''42'', Submit 7001 7002]
               (mount duo_parse 1000 1000 1000 duo_store) = Some (s', w') \<and>
      map question_id (answers s') = [q_id duo_q1, q_id duo_q2] \<and>
      map user_answer (answers s') = [''A'', ''42''] \<and>
      map is_correct (answers s') = [False, False] \<and>
      posts w' = [\<lparr>quiz_id = ''quiz-2'', payload_answers = answers s'\<rparr>] \<and>
      status_of (s', w') = Submitting) \<and>
   (status_of (duo_state0, duo_world0) = Answering \<and> current_question duo_state0 = Some duo_q1 \<and>
    shown_options duo_q1 = Some [''A) x'', ''B) y''] \<and> 1 < length [''A) x'', ''B) y''] \<and>
    [''A) x'', ''B) y''] ! 1 = CHR ''B'' # '') y'' \<and> \<not> is_space CHR ''B'') \<and>
   (\<exists>s' w' ad. run ''quiz-2'' demo_stringify [Click 1, Submit 3000 3001] (duo_state0, duo_world0)
               = Some (s', w') \<and>
      answers s' = answers duo_state0 @ [ad] \<and> question_id ad = q_id duo_q1 \<and>
      user_answer ad = ''B'' \<and> is_correct ad = False)"
proof -
  note T = two_question_quiz_scenario[of duo_store "''two-question quiz''" duo_parse duo_quiz
      duo_q1 duo_q2 "''quiz-2''" demo_stringify 3000 3001 7001 7002 1000 1000 1000
      duo_state0 duo_world0 duo_q1 "[''A) x'', ''B) y'']" 1 "CHR ''B''" "'') y''" 3000 3001]
  have h1: "duo_store ''currentQuiz'' = Some ''two-question quiz'' \<and> ''two-question quiz'' \<noteq> [] \<and>
    duo_parse ''two-question quiz'' = JsonQuiz duo_quiz \<and>
    quiz_questions duo_quiz = Some [duo_q1, duo_q2] \<and> q_type duo_q1 = ''mcq'' \<and>
    q_options duo_q1 = Some [''A) x'', ''B) y''] \<and> shown_options duo_q2 = None"
    by (simp add: duo_shown) (simp add: duo_defs)
  have h2: "status_of (duo_state0, duo_world0) = Answering \<and> current_question duo_state0 = Some duo_q1 \<and>
    shown_options duo_q1 = Some [''A) x'', ''B) y''] \<and> 1 < length [''A) x'', ''B) y''] \<and>
    [''A) x'', ''B) y''] ! 1 = CHR ''B'' # '') y'' \<and> \<not> is_space CHR ''B''"
    by (simp add: duo_shown duo_status duo_current) (simp add: is_space_def)
  note A = T[THEN conjunct1, THEN mp, OF h1]
  note B = T[THEN conjunct2, THEN mp, OF h2]
  show ?thesis by (intro conjI h1 h2 A B)
qed






text \<open>
  C9. On the older page the claim fails, by the defect of C5: the page loads a quiz whose
  question list is empty, and in the state it then holds \<^verbatim>\<open>currentIndex\<close> is 0 and the number
  of questions is 0, so the index is not below it. (The current page never holds a quiz
  without questions, and both pages keep the index in range, never decrease it and advance
  it by one per accepted answer to a question that is not the last, whenever the quiz has a
  question: \<open>currentIndex_bounded_and_monotone\<close>.)
\<close>

theorem legacy_index_out_of_range_on_empty_quiz:
  "legacy_mount demo_empty_parse 1000 1000 1000 demo_empty_store =
     Inr (legacy_empty_state,
          \<lparr>sessionStorage = demo_empty_store, toasts = [], navigations = [], posts = []\<rparr>) \<and>
   quiz legacy_empty_state = Some demo_empty_quiz \<and>
   quiz_questions demo_empty_quiz = Some [] \<and>
   currentIndex legacy_empty_state = 0 \<and>
   \<not> currentIndex legacy_empty_state < length ([] :: question list)"
  by (simp add: legacy_mount_def legacy_loadQuiz_def legacy_initial_state_def fresh_world_def
      legacy_empty_state_def demo_empty_store_def demo_empty_parse_def demo_empty_quiz_def)

end
